theory Spec2Isabelle
  imports Complex_Main
begin

section \<open>Domain types\<close>

text \<open>
  The types of \<^verbatim>\<open>@/types\<close>. A \<^verbatim>\<open>Date\<close> is its time value, the milliseconds
  since the epoch, and so is a reading of \<^verbatim>\<open>Date.now()\<close>. An optional property is an
  \<open>option\<close>, \<open>None\<close> standing for \<^verbatim>\<open>undefined\<close>. The field \<^verbatim>\<open>id\<close> of each
  interface carries the name of its interface, since the interfaces share field names;
  \<^verbatim>\<open>Record<string, any>\<close> is a map from keys to values: what an object holds, not the
  order in which it lists its keys.
\<close>

type_synonym Date = int

datatype SerialStatus = Unassigned | Blocked | Assigned

record SerialInventory =
  serial_id :: string
  supplier_id :: string
  buyer_id :: string
  part_number_id :: string
  serial_number :: string
  status :: SerialStatus
  asn_id :: "string option"
  attributes_json :: "(string \<rightharpoonup> string) option"
  parent_serial_id :: "string option"
  parent_serial_number :: "string option"
  expiry_date :: "Date option"
  created_date :: Date
  updated_date :: Date
  created_by :: string
  updated_by :: string

record Product =
  product_id :: string
  buyer_identifier :: string
  supplier_identifier :: string
  buyer_part_number :: string
  description :: string
  price :: "rat option"
  dimensions :: "string option"
  product_created_date :: Date
  product_updated_date :: Date

record ASNLot =
  lot_id :: string
  item_id :: string
  lot_number :: string
  quantity :: int

record ASNItem =
  item_ident :: string
  item_asn_id :: string
  item_part_number_id :: string
  item_buyer_part_number :: string
  ship_quantity :: int
  lots :: "ASNLot list"

datatype ASNStatus = Draft | Submitted | Received

record ASN =
  asn_ident :: string
  asn_supplier_id :: string
  asn_buyer_id :: string
  asn_number :: string
  asn_status :: ASNStatus
  ship_date :: "Date option"
  delivery_date :: "Date option"
  asn_created_date :: Date
  asn_updated_date :: Date
  items :: "ASNItem list"

section \<open>The host: clock, observers, effects\<close>

text \<open>
  The clock of the host is a sequence of readings; a manager counts the readings it has
  taken, so that two calls of \<^verbatim>\<open>Date.now()\<close> in one operation may differ.

  An observer is a callback registered with \<^verbatim>\<open>subscribe\<close>; \<open>cb_raises\<close> tells
  whether calling it throws. \<^verbatim>\<open>Set.forEach\<close> visits the callbacks in insertion order
  and stops at the first one that throws: \<open>deliver\<close> returns the callbacks that were
  called and whether one of them threw.

  The effects of a manager on the outside are recorded in its trace: every record put into
  the object store, every call of an observer, and every transaction that IndexedDB aborts
  (undoing its put), in the order of their occurrence. Requests to IndexedDB are taken to
  succeed; the \<^verbatim>\<open>onerror\<close> handlers are not modelled.
\<close>

type_synonym clock = "nat \<Rightarrow> int"

record callback =
  cb_id :: nat
  cb_raises :: bool

datatype 'r event = Put 'r | Notified callback | Aborted

datatype outcome = Completed | Pending | Thrown

fun deliver :: "callback list \<Rightarrow> callback list \<times> bool" where
  "deliver [] = ([], False)"
| "deliver (c # cs) =
     (if cb_raises c then ([c], True)
      else (let (called, threw) = deliver cs in (c # called, threw)))"

fun findIndex :: "('a \<Rightarrow> bool) \<Rightarrow> 'a list \<Rightarrow> nat option" where
  "findIndex P [] = None"
| "findIndex P (x # xs) = (if P x then Some 0 else map_option Suc (findIndex P xs))"

section \<open>The per-domain store: \<^verbatim>\<open>SerialStoreManager\<close>\<close>

record SerialStore =
  serials :: "SerialInventory list"
  asns :: "ASN list"
  products :: "Product list"
  lastUpdated :: int

text \<open>
  \<open>db\<close> tells whether \<^verbatim>\<open>this.db\<close> is set, \<open>idb\<close> is the record under the key
  \<^verbatim>\<open>'data'\<close> of the object store (\<open>None\<close> before the first put), \<open>subscribers\<close> is
  the set of callbacks in insertion order.
\<close>

record SerialStoreManager =
  db :: bool
  subscribers :: "callback list"
  idb :: "SerialStore option"
  trace :: "SerialStore event list"
  reads :: nat

definition serialStore :: SerialStoreManager where
  "serialStore = \<lparr>db = False, subscribers = [], idb = None, trace = [], reads = 0\<rparr>"

definition Date_now :: "clock \<Rightarrow> SerialStoreManager \<Rightarrow> int \<times> SerialStoreManager" where
  "Date_now clk m = (clk (reads m), m\<lparr>reads := Suc (reads m)\<rparr>)"

definition init :: "SerialStoreManager \<Rightarrow> SerialStoreManager" where
  "init m = m\<lparr>db := True\<rparr>"

definition subscribe :: "callback \<Rightarrow> SerialStoreManager \<Rightarrow> SerialStoreManager" where
  "subscribe c m =
     (if c \<in> set (subscribers m) then m else m\<lparr>subscribers := subscribers m @ [c]\<rparr>)"

definition unsubscribe :: "callback \<Rightarrow> SerialStoreManager \<Rightarrow> SerialStoreManager" where
  "unsubscribe c m = m\<lparr>subscribers := removeAll c (subscribers m)\<rparr>"

definition notifySubscribers :: "SerialStoreManager \<Rightarrow> bool \<times> SerialStoreManager" where
  "notifySubscribers m =
     (let (called, threw) = deliver (subscribers m)
      in (threw, m\<lparr>trace := trace m @ map Notified called\<rparr>))"

text \<open>
  The default data of \<^verbatim>\<open>src/lib/serialStore.ts\<close>: five serials, two ASNs, three
  products. The dates are those of \<^verbatim>\<open>new Date('2024-01-15')\<close> and the like, midnight
  UTC.
\<close>

definition getDefaultSerials :: "SerialInventory list" where
  "getDefaultSerials =
    [\<lparr>serial_id = ''1'', supplier_id = ''sup1'', buyer_id = ''buy1'', part_number_id = ''1'',
      serial_number = ''CPU001X7001'', status = Blocked, asn_id = Some ''1'',
      attributes_json = None, parent_serial_id = None, parent_serial_number = None,
      expiry_date = None, created_date = 1705276800000, updated_date = 1705708800000,
      created_by = ''admin'', updated_by = ''admin''\<rparr>,
     \<lparr>serial_id = ''2'', supplier_id = ''sup1'', buyer_id = ''buy1'', part_number_id = ''1'',
      serial_number = ''CPU001X7002'', status = Assigned, asn_id = Some ''1'',
      attributes_json = None, parent_serial_id = None, parent_serial_number = None,
      expiry_date = None, created_date = 1705363200000, updated_date = 1705795200000,
      created_by = ''admin'', updated_by = ''admin''\<rparr>,
     \<lparr>serial_id = ''3'', supplier_id = ''sup1'', buyer_id = ''buy1'', part_number_id = ''1'',
      serial_number = ''CPU001X7003'', status = Unassigned, asn_id = None,
      attributes_json = None, parent_serial_id = None, parent_serial_number = None,
      expiry_date = None, created_date = 1705449600000, updated_date = 1705449600000,
      created_by = ''admin'', updated_by = ''admin''\<rparr>,
     \<lparr>serial_id = ''4'', supplier_id = ''sup1'', buyer_id = ''buy1'', part_number_id = ''1'',
      serial_number = ''CPU001X7004'', status = Unassigned, asn_id = None,
      attributes_json = None, parent_serial_id = None, parent_serial_number = None,
      expiry_date = None, created_date = 1705536000000, updated_date = 1705536000000,
      created_by = ''admin'', updated_by = ''admin''\<rparr>,
     \<lparr>serial_id = ''5'', supplier_id = ''sup1'', buyer_id = ''buy1'', part_number_id = ''2'',
      serial_number = ''MEM002DDR5001'', status = Unassigned, asn_id = None,
      attributes_json = None, parent_serial_id = None, parent_serial_number = None,
      expiry_date = None, created_date = 1705622400000, updated_date = 1705622400000,
      created_by = ''admin'', updated_by = ''admin''\<rparr>]"

definition getDefaultASNs :: "ASN list" where
  "getDefaultASNs =
    [\<lparr>asn_ident = ''1'', asn_supplier_id = ''sup1'', asn_buyer_id = ''buy1'',
      asn_number = ''ASN-2024-001'', asn_status = Draft, ship_date = Some 1707955200000,
      delivery_date = None, asn_created_date = 1705276800000,
      asn_updated_date = 1705708800000,
      items =
       [\<lparr>item_ident = ''item1'', item_asn_id = ''1'', item_part_number_id = ''1'',
         item_buyer_part_number = ''CPU-001-X7'', ship_quantity = 10,
         lots = [\<lparr>lot_id = ''lot1'', item_id = ''item1'', lot_number = ''LOT001'', quantity = 5\<rparr>,
                 \<lparr>lot_id = ''lot2'', item_id = ''item1'', lot_number = ''LOT002'', quantity = 5\<rparr>]\<rparr>,
        \<lparr>item_ident = ''item2'', item_asn_id = ''1'', item_part_number_id = ''2'',
         item_buyer_part_number = ''MEM-002-DDR5'', ship_quantity = 20,
         lots = [\<lparr>lot_id = ''lot3'', item_id = ''item2'', lot_number = ''LOT003'', quantity = 15\<rparr>,
                 \<lparr>lot_id = ''lot4'', item_id = ''item2'', lot_number = ''LOT004'', quantity = 5\<rparr>]\<rparr>,
        \<lparr>item_ident = ''item3'', item_asn_id = ''1'', item_part_number_id = ''3'',
         item_buyer_part_number = ''SSD-003-NVMe'', ship_quantity = 8,
         lots = [\<lparr>lot_id = ''lot5'', item_id = ''item3'', lot_number = ''LOT005'', quantity = 8\<rparr>]\<rparr>]\<rparr>,
     \<lparr>asn_ident = ''2'', asn_supplier_id = ''sup2'', asn_buyer_id = ''buy2'',
      asn_number = ''ASN-2024-002'', asn_status = Submitted, ship_date = Some 1708387200000,
      delivery_date = None, asn_created_date = 1705536000000,
      asn_updated_date = 1706140800000, items = []\<rparr>]"

definition getDefaultProducts :: "Product list" where
  "getDefaultProducts =
    [\<lparr>product_id = ''1'', buyer_identifier = ''ACME_CORP'',
      supplier_identifier = ''TECH_SUPPLY_001'', buyer_part_number = ''CPU-001-X7'',
      description = ''High-performance processor unit with enhanced cooling'',
      price = Some (29999 / 100), dimensions = Some ''40mm x 40mm x 5mm'',
      product_created_date = 1705276800000, product_updated_date = 1705708800000\<rparr>,
     \<lparr>product_id = ''2'', buyer_identifier = ''ACME_CORP'',
      supplier_identifier = ''TECH_SUPPLY_001'', buyer_part_number = ''MEM-002-DDR5'',
      description = ''DDR5 Memory Module 32GB'',
      price = Some (18999 / 100), dimensions = Some ''133mm x 30mm x 5mm'',
      product_created_date = 1704844800000, product_updated_date = 1705536000000\<rparr>,
     \<lparr>product_id = ''3'', buyer_identifier = ''BETA_SYSTEMS'',
      supplier_identifier = ''COMPONENT_PLUS'', buyer_part_number = ''SSD-003-NVMe'',
      description = ''NVMe SSD 1TB High Speed Storage'',
      price = Some (14999 / 100), dimensions = Some ''80mm x 22mm x 2.38mm'',
      product_created_date = 1705017600000, product_updated_date = 1705881600000\<rparr>]"

text \<open>
  \<^verbatim>\<open>setStore\<close> puts a copy of the data with a fresh \<^verbatim>\<open>lastUpdated\<close>; the success
  handler of the request then notifies the subscribers and resolves the promise. When an
  observer throws, the handler is left before \<^verbatim>\<open>resolve()\<close>, so the promise stays
  pending; and an exception in the success handler of a request makes IndexedDB abort the
  transaction of the request, which undoes the put: the record is what it was before.
\<close>

definition setStore ::
  "clock \<Rightarrow> SerialStore \<Rightarrow> SerialStoreManager \<Rightarrow> outcome \<times> SerialStoreManager" where
  "setStore clk data m =
     (let m1 = (if db m then m else init m);
          (now, m2) = Date_now clk m1;
          stored = data\<lparr>lastUpdated := now\<rparr>;
          m3 = m2\<lparr>idb := Some stored, trace := trace m2 @ [Put stored]\<rparr>;
          (threw, m4) = notifySubscribers m3
      in if threw then (Pending, m4\<lparr>idb := idb m, trace := trace m4 @ [Aborted]\<rparr>)
         else (Completed, m4))"

definition defaultStore :: "int \<Rightarrow> SerialStore" where
  "defaultStore now = \<lparr>serials = getDefaultSerials, asns = getDefaultASNs,
                        products = getDefaultProducts, lastUpdated = now\<rparr>"

text \<open>
  \<^verbatim>\<open>getStore\<close> resolves with the stored record; when there is none it builds the
  default store (\<open>defaultStore\<close> at a reading of the clock), calls \<^verbatim>\<open>setStore\<close> on
  it without awaiting the promise, and resolves with the default store. The put of
  \<^verbatim>\<open>setStore\<close> copies the data when it is called, so what the caller does to the
  default store afterwards does not reach the stored record. When an observer throws in
  the round of that put, the put is undone and the record is absent as before.
\<close>

definition getStore :: "clock \<Rightarrow> SerialStoreManager \<Rightarrow> SerialStore \<times> SerialStoreManager" where
  "getStore clk m =
     (let m1 = (if db m then m else init m)
      in case idb m1 of
           Some result \<Rightarrow> (result, m1)
         | None \<Rightarrow>
            (let (now, m2) = Date_now clk m1;
                 (unawaited, m3) = setStore clk (defaultStore now) m2
             in (defaultStore now, m3)))"

definition addSerials ::
  "clock \<Rightarrow> SerialInventory list \<Rightarrow> SerialStoreManager \<Rightarrow> outcome \<times> SerialStoreManager" where
  "addSerials clk new m =
     (let (store, m1) = getStore clk m
      in setStore clk (store\<lparr>serials := serials store @ new\<rparr>) m1)"

definition updateSerial ::
  "clock \<Rightarrow> SerialInventory \<Rightarrow> SerialStoreManager \<Rightarrow> outcome \<times> SerialStoreManager" where
  "updateSerial clk updatedSerial m =
     (let (store, m1) = getStore clk m
      in case findIndex (\<lambda>s. serial_id s = serial_id updatedSerial) (serials store) of
           Some index \<Rightarrow>
             setStore clk (store\<lparr>serials := (serials store)[index := updatedSerial]\<rparr>) m1
         | None \<Rightarrow> (Completed, m1))"

text \<open>
  \<^verbatim>\<open>find\<close> returns the first serial with the id, and the assignments change that
  object inside \<^verbatim>\<open>store.serials\<close>: the model updates the list at the index of the first
  match. \<^verbatim>\<open>new Date()\<close> is a reading of the clock.
\<close>

definition updateSerialStatus ::
  "clock \<Rightarrow> string \<Rightarrow> SerialStatus \<Rightarrow> string option \<Rightarrow> SerialStoreManager
     \<Rightarrow> outcome \<times> SerialStoreManager" where
  "updateSerialStatus clk serialId newStatus asnId m =
     (let (store, m1) = getStore clk m
      in case findIndex (\<lambda>s. serial_id s = serialId) (serials store) of
           Some index \<Rightarrow>
             (let serial = serials store ! index;
                  (now, m2) = Date_now clk m1;
                  serial' = serial\<lparr>status := newStatus, asn_id := asnId, updated_date := now\<rparr>
              in setStore clk (store\<lparr>serials := (serials store)[index := serial']\<rparr>) m2)
         | None \<Rightarrow> (Completed, m1))"

definition getSerialsByStatus ::
  "clock \<Rightarrow> SerialStatus \<Rightarrow> SerialStoreManager \<Rightarrow> SerialInventory list \<times> SerialStoreManager" where
  "getSerialsByStatus clk st m =
     (let (store, m1) = getStore clk m in (filter (\<lambda>s. status s = st) (serials store), m1))"

definition getSerialsByASN ::
  "clock \<Rightarrow> string \<Rightarrow> SerialStoreManager \<Rightarrow> SerialInventory list \<times> SerialStoreManager" where
  "getSerialsByASN clk asnId m =
     (let (store, m1) = getStore clk m
      in (filter (\<lambda>s. asn_id s = Some asnId) (serials store), m1))"

definition getSerialsByPartNumber ::
  "clock \<Rightarrow> string \<Rightarrow> SerialStoreManager \<Rightarrow> SerialInventory list \<times> SerialStoreManager" where
  "getSerialsByPartNumber clk partNumberId m =
     (let (store, m1) = getStore clk m
      in (filter (\<lambda>s. part_number_id s = partNumberId) (serials store), m1))"

record SerialCounts =
  total :: nat
  unassigned :: nat
  blocked :: nat
  assigned :: nat

definition getSerialCounts ::
  "clock \<Rightarrow> SerialStoreManager \<Rightarrow> SerialCounts \<times> SerialStoreManager" where
  "getSerialCounts clk m =
     (let (store, m1) = getStore clk m
      in (\<lparr>total = length (serials store),
           unassigned = length (filter (\<lambda>s. status s = Unassigned) (serials store)),
           blocked = length (filter (\<lambda>s. status s = Blocked) (serials store)),
           assigned = length (filter (\<lambda>s. status s = Assigned) (serials store))\<rparr>, m1))"

section \<open>The global store: \<^verbatim>\<open>GlobalStoreManager\<close>\<close>

record SearchTerms =
  search_serials :: string
  search_asns :: string
  search_products :: string

record Filters =
  serialStatus :: "SerialStatus option"
  asnStatus :: "ASNStatus option"

record Modals =
  serialDetail :: bool
  asnDetail :: bool
  addSerial :: bool
  addASN :: bool
  assignSerials :: bool
  uploadChildSerials :: bool
  importSerials :: bool

record UiState =
  activeTab :: string
  selectedSerial :: "SerialInventory option"
  selectedASN :: "ASN option"
  selectedProduct :: "Product option"
  searchTerms :: SearchTerms
  filters :: Filters
  modals :: Modals

record SystemState =
  loading :: bool
  system_lastUpdated :: int
  errors :: "string list"

record GlobalState =
  g_serials :: "SerialInventory list"
  g_asns :: "ASN list"
  g_products :: "Product list"
  ui :: UiState
  system :: SystemState

text \<open>
  \<^verbatim>\<open>Partial<GlobalState>\<close>: the keys an updater returns; \<open>None\<close> is a key that is
  not there. A filter value \<open>None\<close> is \<^verbatim>\<open>'all'\<close>.
\<close>

record PartialGlobalState =
  upd_serials :: "SerialInventory list option"
  upd_asns :: "ASN list option"
  upd_products :: "Product list option"
  upd_ui :: "UiState option"
  upd_system :: "SystemState option"

definition no_updates :: PartialGlobalState where
  "no_updates = \<lparr>upd_serials = None, upd_asns = None, upd_products = None, upd_ui = None,
                  upd_system = None\<rparr>"

text \<open>
  \<^verbatim>\<open>defaultState\<close> is built once, when the module is loaded: its \<^verbatim>\<open>lastUpdated\<close> is
  the first reading of the clock.
\<close>

definition defaultState :: "clock \<Rightarrow> GlobalState" where
  "defaultState clk =
    \<lparr>g_serials = [], g_asns = [], g_products = [],
     ui = \<lparr>activeTab = ''products'', selectedSerial = None, selectedASN = None,
           selectedProduct = None,
           searchTerms = \<lparr>search_serials = [], search_asns = [], search_products = []\<rparr>,
           filters = \<lparr>serialStatus = None, asnStatus = None\<rparr>,
           modals = \<lparr>serialDetail = False, asnDetail = False, addSerial = False,
                     addASN = False, assignSerials = False, uploadChildSerials = False,
                     importSerials = False\<rparr>\<rparr>,
     system = \<lparr>loading = False, system_lastUpdated = clk 0, errors = []\<rparr>\<rparr>"

record GlobalStoreManager =
  g_state :: GlobalState
  g_subscribers :: "callback list"
  g_db :: bool
  g_idb :: "GlobalState option"
  g_trace :: "GlobalState event list"
  g_reads :: nat

definition globalStore :: "clock \<Rightarrow> GlobalStoreManager" where
  "globalStore clk = \<lparr>g_state = defaultState clk, g_subscribers = [], g_db = False,
                      g_idb = None, g_trace = [], g_reads = 1\<rparr>"

definition g_Date_now :: "clock \<Rightarrow> GlobalStoreManager \<Rightarrow> int \<times> GlobalStoreManager" where
  "g_Date_now clk g = (clk (g_reads g), g\<lparr>g_reads := Suc (g_reads g)\<rparr>)"

definition g_notifySubscribers :: "GlobalStoreManager \<Rightarrow> bool \<times> GlobalStoreManager" where
  "g_notifySubscribers g =
     (let (called, threw) = deliver (g_subscribers g)
      in (threw, g\<lparr>g_trace := g_trace g @ map Notified called\<rparr>))"

text \<open>
  \<^verbatim>\<open>subscribe\<close> adds the callback and calls it at once with the current state.
\<close>

definition g_subscribe :: "callback \<Rightarrow> GlobalStoreManager \<Rightarrow> outcome \<times> GlobalStoreManager" where
  "g_subscribe c g =
     (let g1 = (if c \<in> set (g_subscribers g) then g
                else g\<lparr>g_subscribers := g_subscribers g @ [c]\<rparr>);
          g2 = g1\<lparr>g_trace := g_trace g1 @ [Notified c]\<rparr>
      in (if cb_raises c then Thrown else Completed, g2))"

definition g_unsubscribe :: "callback \<Rightarrow> GlobalStoreManager \<Rightarrow> GlobalStoreManager" where
  "g_unsubscribe c g = g\<lparr>g_subscribers := removeAll c (g_subscribers g)\<rparr>"

definition getState :: "GlobalStoreManager \<Rightarrow> GlobalState" where
  "getState g = g_state g"

definition saveState :: "GlobalStoreManager \<Rightarrow> GlobalStoreManager" where
  "saveState g =
     (if \<not> g_db g then g
      else g\<lparr>g_idb := Some (g_state g), g_trace := g_trace g @ [Put (g_state g)]\<rparr>)"

text \<open>
  An updater reads the state and may read the clock (\<^verbatim>\<open>new Date()\<close>): it takes the
  number of readings so far and returns the number after it. \<^verbatim>\<open>setState\<close> merges the
  updates into the state, stamps \<^verbatim>\<open>lastUpdated\<close>, notifies the subscribers and then
  saves; an observer that throws leaves \<^verbatim>\<open>setState\<close> before \<^verbatim>\<open>saveState\<close>.
\<close>

type_synonym updater = "clock \<Rightarrow> nat \<Rightarrow> GlobalState \<Rightarrow> PartialGlobalState \<times> nat"

definition merge_updates :: "GlobalState \<Rightarrow> PartialGlobalState \<Rightarrow> int \<Rightarrow> GlobalState" where
  "merge_updates st updates now =
    \<lparr>g_serials = (case upd_serials updates of Some v \<Rightarrow> v | None \<Rightarrow> g_serials st),
     g_asns = (case upd_asns updates of Some v \<Rightarrow> v | None \<Rightarrow> g_asns st),
     g_products = (case upd_products updates of Some v \<Rightarrow> v | None \<Rightarrow> g_products st),
     ui = (case upd_ui updates of Some v \<Rightarrow> v | None \<Rightarrow> ui st),
     system = (case upd_system updates of Some v \<Rightarrow> v | None \<Rightarrow> system st)
                \<lparr>system_lastUpdated := now\<rparr>\<rparr>"

definition setState :: "clock \<Rightarrow> updater \<Rightarrow> GlobalStoreManager \<Rightarrow> outcome \<times> GlobalStoreManager" where
  "setState clk upd g =
     (let (updates, k) = upd clk (g_reads g) (g_state g);
          (now, g1) = g_Date_now clk (g\<lparr>g_reads := k\<rparr>);
          g2 = g1\<lparr>g_state := merge_updates (g_state g) updates now\<rparr>;
          (threw, g3) = g_notifySubscribers g2
      in if threw then (Thrown, g3) else (Completed, saveState g3))"

definition g_getDefaultASNs :: "ASN list" where
  "g_getDefaultASNs =
    [\<lparr>asn_ident = ''1'', asn_supplier_id = ''sup1'', asn_buyer_id = ''buy1'',
      asn_number = ''ASN001'', asn_status = Draft, ship_date = Some 1706745600000,
      delivery_date = Some 1707091200000, asn_created_date = 1706140800000,
      asn_updated_date = 1706140800000, items = []\<rparr>,
     \<lparr>asn_ident = ''2'', asn_supplier_id = ''sup2'', asn_buyer_id = ''buy2'',
      asn_number = ''ASN002'', asn_status = Submitted, ship_date = Some 1706918400000,
      delivery_date = Some 1707264000000, asn_created_date = 1706313600000,
      asn_updated_date = 1706572800000, items = []\<rparr>]"

definition g_getDefaultProducts :: "Product list" where
  "g_getDefaultProducts =
    [\<lparr>product_id = ''1'', buyer_identifier = ''ACME-CPU-001'',
      supplier_identifier = ''INTEL-i7-13700K'', buyer_part_number = ''CPU001'',
      description = ''Intel Core i7-13700K Processor'',
      price = Some (45099 / 100), dimensions = Some ''37.5 x 37.5 x 7.4 mm'',
      product_created_date = 1704067200000, product_updated_date = 1704067200000\<rparr>,
     \<lparr>product_id = ''2'', buyer_identifier = ''ACME-MEM-002'',
      supplier_identifier = ''CORSAIR-32GB-DDR5'', buyer_part_number = ''MEM002'',
      description = ''Corsair Vengeance 32GB DDR5-5600'',
      price = Some (18999 / 100), dimensions = Some ''133.35 x 7.0 x 34.1 mm'',
      product_created_date = 1704153600000, product_updated_date = 1704153600000\<rparr>]"

text \<open>
  \<^verbatim>\<open>loadState\<close> reads the record under the key \<^verbatim>\<open>'state'\<close>. A stored record
  replaces the state, with \<^verbatim>\<open>lastUpdated\<close> stamped afresh; without one the state
  becomes the default state with the default serials (the same five as in the per-domain
  store), ASNs and products, and nothing is put. The subscribers are notified before the
  promise resolves.
\<close>

definition loadState :: "clock \<Rightarrow> GlobalStoreManager \<Rightarrow> outcome \<times> GlobalStoreManager" where
  "loadState clk g =
     (if \<not> g_db g then (Completed, g)
      else
        (let g1 = (case g_idb g of
                     Some result \<Rightarrow>
                       (let (now, g') = g_Date_now clk g
                        in g'\<lparr>g_state := result\<lparr>system := (system result)
                                                     \<lparr>system_lastUpdated := now\<rparr>\<rparr>\<rparr>)
                   | None \<Rightarrow>
                       g\<lparr>g_state := (defaultState clk)
                            \<lparr>g_serials := getDefaultSerials, g_asns := g_getDefaultASNs,
                             g_products := g_getDefaultProducts\<rparr>\<rparr>);
             (threw, g2) = g_notifySubscribers g1
         in (if threw then Pending else Completed, g2)))"

definition g_init :: "clock \<Rightarrow> GlobalStoreManager \<Rightarrow> outcome \<times> GlobalStoreManager" where
  "g_init clk g = loadState clk (g\<lparr>g_db := True\<rparr>)"

definition g_addSerials ::
  "clock \<Rightarrow> SerialInventory list \<Rightarrow> GlobalStoreManager \<Rightarrow> outcome \<times> GlobalStoreManager" where
  "g_addSerials clk new g =
     setState clk (\<lambda>clk k st. (no_updates\<lparr>upd_serials := Some (g_serials st @ new)\<rparr>, k)) g"

definition g_updateSerial ::
  "clock \<Rightarrow> SerialInventory \<Rightarrow> GlobalStoreManager \<Rightarrow> outcome \<times> GlobalStoreManager" where
  "g_updateSerial clk updatedSerial g =
     setState clk (\<lambda>clk k st.
       (no_updates\<lparr>upd_serials := Some (map (\<lambda>serial.
           if serial_id serial = serial_id updatedSerial then updatedSerial else serial)
         (g_serials st))\<rparr>, k)) g"

definition deleteSerial ::
  "clock \<Rightarrow> string \<Rightarrow> GlobalStoreManager \<Rightarrow> outcome \<times> GlobalStoreManager" where
  "deleteSerial clk serialId g =
     setState clk (\<lambda>clk k st.
       (no_updates\<lparr>upd_serials := Some (filter (\<lambda>serial. serial_id serial \<noteq> serialId)
         (g_serials st))\<rparr>, k)) g"

text \<open>
  In \<^verbatim>\<open>updateSerialStatus\<close> the \<^verbatim>\<open>map\<close> builds a new object for every serial with
  the id, each with its own \<^verbatim>\<open>new Date()\<close>.
\<close>

fun mark_status ::
  "clock \<Rightarrow> string \<Rightarrow> SerialStatus \<Rightarrow> string option \<Rightarrow> SerialInventory list \<Rightarrow> nat
     \<Rightarrow> SerialInventory list \<times> nat" where
  "mark_status clk serialId newStatus asnId [] k = ([], k)"
| "mark_status clk serialId newStatus asnId (serial # rest) k =
     (if serial_id serial = serialId
      then (let (rest', k') = mark_status clk serialId newStatus asnId rest (Suc k)
            in (serial\<lparr>status := newStatus, asn_id := asnId, updated_date := clk k\<rparr> # rest', k'))
      else (let (rest', k') = mark_status clk serialId newStatus asnId rest k
            in (serial # rest', k')))"

definition g_updateSerialStatus ::
  "clock \<Rightarrow> string \<Rightarrow> SerialStatus \<Rightarrow> string option \<Rightarrow> GlobalStoreManager
     \<Rightarrow> outcome \<times> GlobalStoreManager" where
  "g_updateSerialStatus clk serialId newStatus asnId g =
     setState clk (\<lambda>clk k st.
       (let (serials', k') = mark_status clk serialId newStatus asnId (g_serials st) k
        in (no_updates\<lparr>upd_serials := Some serials'\<rparr>, k'))) g"

definition deleteProduct ::
  "clock \<Rightarrow> string \<Rightarrow> GlobalStoreManager \<Rightarrow> outcome \<times> GlobalStoreManager" where
  "deleteProduct clk productId g =
     setState clk (\<lambda>clk k st.
       (no_updates\<lparr>upd_products := Some (filter (\<lambda>product. product_id product \<noteq> productId)
         (g_products st))\<rparr>, k)) g"

definition g_getSerialsByStatus :: "SerialStatus \<Rightarrow> GlobalStoreManager \<Rightarrow> SerialInventory list" where
  "g_getSerialsByStatus st g = filter (\<lambda>s. status s = st) (g_serials (g_state g))"

definition g_getSerialsByASN :: "string \<Rightarrow> GlobalStoreManager \<Rightarrow> SerialInventory list" where
  "g_getSerialsByASN asnId g = filter (\<lambda>s. asn_id s = Some asnId) (g_serials (g_state g))"

definition g_getSerialCounts :: "GlobalStoreManager \<Rightarrow> SerialCounts" where
  "g_getSerialCounts g =
     \<lparr>total = length (g_serials (g_state g)),
      unassigned = length (filter (\<lambda>s. status s = Unassigned) (g_serials (g_state g))),
      blocked = length (filter (\<lambda>s. status s = Blocked) (g_serials (g_state g))),
      assigned = length (filter (\<lambda>s. status s = Assigned) (g_serials (g_state g)))\<rparr>"

section \<open>Bulk generation: \<^verbatim>\<open>AddSerialsForm.handleBulkGenerate\<close>\<close>

text \<open>
  Strings are lists of code units below 256. \<open>js_whitespace\<close> holds of the white space
  and line terminators of ECMAScript in that range.

  A number of JavaScript is a double. The model follows the code on the safe integers,
  those of absolute value at most \<open>2\<^sup>5\<^sup>3 - 1\<close>, where the arithmetic of doubles is the
  arithmetic of integers; a number beyond them is \<open>Unsafe\<close>, and where the code computes
  with such a number the model gives no result. \<open>parseInt\<close> follows the built-in function
  called with one argument: leading white space, a sign, a \<^verbatim>\<open>0x\<close> prefix, then the
  longest run of digits; without a digit the result is \<^verbatim>\<open>NaN\<close>.
\<close>

datatype number = NaN | Num int | Unsafe

definition safe_integer :: "int \<Rightarrow> bool" where
  "safe_integer i \<longleftrightarrow> - (2 ^ 53 - 1) \<le> i \<and> i \<le> 2 ^ 53 - 1"

definition js_whitespace :: "char \<Rightarrow> bool" where
  "js_whitespace c \<longleftrightarrow>
     c \<in> set [CHR 0x09, CHR 0x0A, CHR 0x0B, CHR 0x0C, CHR 0x0D, CHR 0x20, CHR 0xA0]"

definition trim :: "string \<Rightarrow> string" where
  "trim s = rev (dropWhile js_whitespace (rev (dropWhile js_whitespace s)))"

definition digit_value :: "char \<Rightarrow> nat option" where
  "digit_value = map_of
     [(CHR ''0'', 0), (CHR ''1'', 1), (CHR ''2'', 2), (CHR ''3'', 3), (CHR ''4'', 4),
      (CHR ''5'', 5), (CHR ''6'', 6), (CHR ''7'', 7), (CHR ''8'', 8), (CHR ''9'', 9),
      (CHR ''a'', 10), (CHR ''b'', 11), (CHR ''c'', 12), (CHR ''d'', 13), (CHR ''e'', 14),
      (CHR ''f'', 15), (CHR ''A'', 10), (CHR ''B'', 11), (CHR ''C'', 12), (CHR ''D'', 13),
      (CHR ''E'', 14), (CHR ''F'', 15)]"

definition is_digit :: "nat \<Rightarrow> char \<Rightarrow> bool" where
  "is_digit radix c = (case digit_value c of Some v \<Rightarrow> v < radix | None \<Rightarrow> False)"

definition digits_value :: "nat \<Rightarrow> string \<Rightarrow> nat" where
  "digits_value radix ds =
     foldl (\<lambda>acc c. acc * radix + (case digit_value c of Some v \<Rightarrow> v | None \<Rightarrow> 0)) 0 ds"

definition parseInt :: "string \<Rightarrow> number" where
  "parseInt str =
     (let s = dropWhile js_whitespace str;
          (sign, s1) = (case s of
                          [] \<Rightarrow> (1, s)
                        | c # rest \<Rightarrow> if c = CHR ''-'' then (- 1, rest)
                                      else if c = CHR ''+'' then (1, rest) else (1, s));
          (radix, s2) = (if take 2 s1 = ''0x'' \<or> take 2 s1 = ''0X'' then (16, drop 2 s1)
                         else (10, s1));
          ds = takeWhile (is_digit radix) s2;
          val = sign * int (digits_value radix ds)
      in if ds = [] then NaN else if safe_integer val then Num val else Unsafe)"

fun nat_toString :: "nat \<Rightarrow> string" where
  "nat_toString n =
     (if n < 10 then [''0123456789'' ! n]
      else nat_toString (n div 10) @ [''0123456789'' ! (n mod 10)])"

declare nat_toString.simps [simp del]

definition toString :: "int \<Rightarrow> string" where
  "toString i = (if i < 0 then ''-'' @ nat_toString (nat (- i)) else nat_toString (nat i))"

definition padStart :: "nat \<Rightarrow> char \<Rightarrow> string \<Rightarrow> string" where
  "padStart targetLength fill s = replicate (targetLength - length s) fill @ s"

definition createAttributesJson :: "(string \<times> string) list \<Rightarrow> (string \<rightharpoonup> string)" where
  "createAttributesJson attrs =
     foldl (\<lambda>acc (key, val).
              if trim key \<noteq> [] \<and> trim val \<noteq> [] then acc(trim key \<mapsto> trim val)
              else acc) Map.empty attrs"

record Toast =
  title :: string
  toast_description :: string
  destructive :: bool

text \<open>
  The state of the form that bulk generation reads and writes, and the toasts it has shown.
\<close>

record AddSerialsForm =
  prefix :: string
  startNumber :: string
  endNumber :: string
  bulkExpiryDate :: "Date option"
  bulkAttributes :: "(string \<times> string) list"
  form_loading :: bool
  toasts :: "Toast list"

definition toast :: "Toast \<Rightarrow> AddSerialsForm \<Rightarrow> AddSerialsForm" where
  "toast t form = form\<lparr>toasts := toasts form @ [t]\<rparr>"

text \<open>
  The loop of \<^verbatim>\<open>handleBulkGenerate\<close>: one unit for every \<open>i\<close> from \<open>start\<close> to
  \<open>end\<close>, pushed onto the list. \<open>bulk_unit\<close> is the object that the body of the loop
  builds for \<open>i\<close>; it reads the clock three times, for its id and its two dates.
  \<^verbatim>\<open>i++\<close> is the successor on a safe integer; where \<open>i\<close> is not one, the model
  gives no result (\<open>None\<close>), since the loop of the code need not advance there.
\<close>

definition bulk_unit :: "clock \<Rightarrow> Product \<Rightarrow> AddSerialsForm \<Rightarrow> int \<Rightarrow> nat \<Rightarrow> SerialInventory" where
  "bulk_unit clk product form i k =
     (let paddedNumber = padStart 3 (CHR ''0'') (toString i)
      in \<lparr>serial_id = ''serial_'' @ toString (clk k) @ ''_'' @ toString i,
          supplier_id = ''sup1'', buyer_id = ''buy1'',
          part_number_id = product_id product,
          serial_number = prefix form @ paddedNumber,
          status = Unassigned, asn_id = None,
          attributes_json = Some (createAttributesJson (bulkAttributes form)),
          parent_serial_id = None, parent_serial_number = None,
          expiry_date = bulkExpiryDate form,
          created_date = clk (k + 1), updated_date = clk (k + 2),
          created_by = ''user'', updated_by = ''user''\<rparr>)"

function bulk_loop ::
  "clock \<Rightarrow> Product \<Rightarrow> AddSerialsForm \<Rightarrow> int \<Rightarrow> int \<Rightarrow> SerialInventory list \<Rightarrow> nat
     \<Rightarrow> (SerialInventory list \<times> nat) option" where
  "bulk_loop clk product form i endNum units k =
     (if i \<le> endNum
      then (if safe_integer i
            then bulk_loop clk product form (i + 1) endNum
                   (units @ [bulk_unit clk product form i k]) (k + 3)
            else None)
      else Some (units, k))"
  by pat_completeness auto
termination
  by (relation "measure (\<lambda>(clk, product, form, i, endNum, units, k). nat (endNum + 1 - i))")
     auto

declare bulk_loop.simps [simp del]

definition invalid_input :: Toast where
  "invalid_input = \<lparr>title = ''Invalid input'',
     toast_description = ''Please provide valid prefix and number range.'',
     destructive = True\<rparr>"

definition range_too_large :: Toast where
  "range_too_large = \<lparr>title = ''Range too large'',
     toast_description = ''Maximum 1000 serials can be generated at once.'',
     destructive = True\<rparr>"

definition serials_generated :: "nat \<Rightarrow> Toast" where
  "serials_generated n = \<lparr>title = ''Serials generated'',
     toast_description = nat_toString n @ '' serial numbers generated successfully.'',
     destructive = False\<rparr>"

text \<open>
  \<^verbatim>\<open>handleBulkGenerate\<close> rejects an invalid input and a range that is too large with a
  toast, before anything else happens. Otherwise it builds the units and awaits
  \<^verbatim>\<open>addSerials\<close> of the per-domain store; when that promise stays pending, nothing after
  the \<^verbatim>\<open>await\<close> runs. The result is \<open>None\<close> where the code compares or subtracts a
  number that is not a safe integer.
\<close>

definition handleBulkGenerate ::
  "clock \<Rightarrow> Product \<Rightarrow> AddSerialsForm \<Rightarrow> SerialStoreManager
     \<Rightarrow> (AddSerialsForm \<times> SerialStoreManager) option" where
  "handleBulkGenerate clk product form m =
     (if trim (prefix form) = [] \<or> parseInt (startNumber form) = NaN
          \<or> parseInt (endNumber form) = NaN
      then Some (toast invalid_input form, m)
      else
        (case (parseInt (startNumber form), parseInt (endNumber form)) of
           (Num start, Num endNum) \<Rightarrow>
             if start > endNum then Some (toast invalid_input form, m)
             else if endNum - start > 1000 then Some (toast range_too_large form, m)
             else
               (let form1 = form\<lparr>form_loading := True\<rparr>
                in case bulk_loop clk product form start endNum [] (reads m) of
                     None \<Rightarrow> None
                   | Some (units, k) \<Rightarrow>
                      (let (result, m1) = addSerials clk units (m\<lparr>reads := k\<rparr>)
                       in if result = Completed then
                            Some (toast (serials_generated (length units))
                                    (form1\<lparr>prefix := [], startNumber := [], endNumber := [],
                                           bulkExpiryDate := None, bulkAttributes := []\<rparr>)
                                    \<lparr>form_loading := False\<rparr>, m1)
                          else Some (form1, m1)))
         | _ \<Rightarrow> None))"

section \<open>Calls, runs and observations\<close>

text \<open>
  The calls a collaborator makes on a store, and a run: calls made one after the other,
  each on the state the one before has left. On the global store \<open>GetStore\<close> is
  \<^verbatim>\<open>getState\<close>, which changes nothing.
\<close>

datatype call =
    AddSerials "SerialInventory list"
  | UpdateSerial SerialInventory
  | UpdateSerialStatus string SerialStatus "string option"
  | GetStore

fun perform :: "clock \<Rightarrow> call \<Rightarrow> SerialStoreManager \<Rightarrow> outcome \<times> SerialStoreManager" where
  "perform clk (AddSerials new) m = addSerials clk new m"
| "perform clk (UpdateSerial updatedSerial) m = updateSerial clk updatedSerial m"
| "perform clk (UpdateSerialStatus serialId newStatus asnId) m =
     updateSerialStatus clk serialId newStatus asnId m"
| "perform clk GetStore m = (Completed, snd (getStore clk m))"

fun run :: "clock \<Rightarrow> call list \<Rightarrow> SerialStoreManager \<Rightarrow> SerialStoreManager" where
  "run clk [] m = m"
| "run clk (c # cs) m = run clk cs (snd (perform clk c m))"

fun g_perform :: "clock \<Rightarrow> call \<Rightarrow> GlobalStoreManager \<Rightarrow> outcome \<times> GlobalStoreManager" where
  "g_perform clk (AddSerials new) g = g_addSerials clk new g"
| "g_perform clk (UpdateSerial updatedSerial) g = g_updateSerial clk updatedSerial g"
| "g_perform clk (UpdateSerialStatus serialId newStatus asnId) g =
     g_updateSerialStatus clk serialId newStatus asnId g"
| "g_perform clk GetStore g = (Completed, g)"

fun g_run :: "clock \<Rightarrow> call list \<Rightarrow> GlobalStoreManager \<Rightarrow> GlobalStoreManager" where
  "g_run clk [] g = g"
| "g_run clk (c # cs) g = g_run clk cs (snd (g_perform clk c g))"

text \<open>
  What a trace shows: how often an observer was called, and how many records were put.
\<close>

definition notifications :: "callback \<Rightarrow> 'r event list \<Rightarrow> nat" where
  "notifications c tr = count_list tr (Notified c)"

fun is_put :: "'r event \<Rightarrow> bool" where
  "is_put (Put r) = True"
| "is_put (Notified c) = False"
| "is_put Aborted = False"

definition puts :: "'r event list \<Rightarrow> nat" where
  "puts tr = length (filter is_put tr)"

text \<open>
  The status invariant: a status and an ASN id agree when the id is absent exactly for
  \<^verbatim>\<open>'unassigned'\<close> and an id that is present is the id of one of the ASNs.
\<close>

definition pair_ok :: "ASN list \<Rightarrow> SerialStatus \<Rightarrow> string option \<Rightarrow> bool" where
  "pair_ok as st a \<longleftrightarrow>
     (st = Unassigned) = (a = None) \<and>
     (case a of None \<Rightarrow> True | Some x \<Rightarrow> x \<in> set (map asn_ident as))"

definition unit_ok :: "ASN list \<Rightarrow> SerialInventory \<Rightarrow> bool" where
  "unit_ok as u = pair_ok as (status u) (asn_id u)"

definition status_invariant :: "SerialStore \<Rightarrow> bool" where
  "status_invariant s = list_all (unit_ok (asns s)) (serials s)"

definition g_status_invariant :: "GlobalState \<Rightarrow> bool" where
  "g_status_invariant st = list_all (unit_ok (g_asns st)) (g_serials st)"

fun call_ok :: "ASN list \<Rightarrow> call \<Rightarrow> bool" where
  "call_ok as (AddSerials new) = list_all (unit_ok as) new"
| "call_ok as (UpdateSerial updatedSerial) = unit_ok as updatedSerial"
| "call_ok as (UpdateSerialStatus serialId newStatus asnId) = pair_ok as newStatus asnId"
| "call_ok as GetStore = True"

text \<open>
  Whether a call writes the snapshot of the per-domain store: \<^verbatim>\<open>addSerials\<close> always
  does, \<^verbatim>\<open>updateSerial\<close> and \<^verbatim>\<open>updateSerialStatus\<close> do when a serial has the id,
  a read does not. On the global store every call but the read goes through
  \<^verbatim>\<open>setState\<close>.
\<close>

fun writes :: "SerialStore \<Rightarrow> call \<Rightarrow> bool" where
  "writes s (AddSerials new) = True"
| "writes s (UpdateSerial updatedSerial) =
     list_ex (\<lambda>x. serial_id x = serial_id updatedSerial) (serials s)"
| "writes s (UpdateSerialStatus serialId newStatus asnId) =
     list_ex (\<lambda>x. serial_id x = serialId) (serials s)"
| "writes s GetStore = False"

fun is_mutation :: "call \<Rightarrow> bool" where
  "is_mutation GetStore = False"
| "is_mutation c = True"

text \<open>
  Subscribers are \<open>quiet\<close> when none of them throws; as the elements of a set they are
  distinct. \<open>reached\<close> are the observers that a round calls: those before the first one
  that throws, and that one.
\<close>

definition quiet :: "callback list \<Rightarrow> bool" where
  "quiet cs \<longleftrightarrow> distinct cs \<and> list_all (\<lambda>c. \<not> cb_raises c) cs"

definition reached :: "callback list \<Rightarrow> callback list" where
  "reached cs =
     takeWhile (\<lambda>c. \<not> cb_raises c) cs @ take 1 (dropWhile (\<lambda>c. \<not> cb_raises c) cs)"

text \<open>
  A snapshot is sound for the ASNs \<open>A\<close> when these are its ASNs and every serial agrees
  with them; this is the status invariant with the ASNs named, as the proofs need it.
\<close>

definition sound :: "ASN list \<Rightarrow> SerialStore \<Rightarrow> bool" where
  "sound A s \<longleftrightarrow> list_all (unit_ok A) (serials s) \<and> asns s = A"

definition g_sound :: "ASN list \<Rightarrow> GlobalState \<Rightarrow> bool" where
  "g_sound A st \<longleftrightarrow> list_all (unit_ok A) (g_serials st) \<and> g_asns st = A"

text \<open>
  A per-domain manager keeps the invariant for \<open>A\<close> when its record, if it has one, is
  sound for \<open>A\<close>, and when, without a record, \<open>A\<close> are the default ASNs, which the
  next read will store.
\<close>

definition kept :: "ASN list \<Rightarrow> SerialStoreManager \<Rightarrow> bool" where
  "kept A m = (case idb m of None \<Rightarrow> A = getDefaultASNs | Some s \<Rightarrow> sound A s)"

text \<open>
  A per-domain manager is stocked when its record, if it has one, has the default
  products; no operation of the store changes the products.
\<close>

definition stocked :: "SerialStoreManager \<Rightarrow> bool" where
  "stocked m = (case idb m of None \<Rightarrow> True | Some s \<Rightarrow> products s = getDefaultProducts)"

text \<open>
  The relation between a serial before and after \<^verbatim>\<open>updateSerialStatus\<close> of the global
  store: a serial with the id has its status, its ASN id and its date of update replaced and
  nothing else; any other serial is as it was.
\<close>

definition marked ::
  "string \<Rightarrow> SerialStatus \<Rightarrow> string option \<Rightarrow> SerialInventory \<Rightarrow> SerialInventory \<Rightarrow> bool" where
  "marked sid st a u u' \<longleftrightarrow>
     (if serial_id u = sid
      then u' = u\<lparr>status := st, asn_id := a, updated_date := updated_date u'\<rparr>
      else u' = u)"

text \<open>
  The units that the loop of bulk generation builds for the range from \<open>a\<close> to \<open>b\<close>
  when the clock has been read \<open>k\<close> times before.
\<close>

definition bulk_units ::
  "clock \<Rightarrow> Product \<Rightarrow> AddSerialsForm \<Rightarrow> int \<Rightarrow> int \<Rightarrow> nat \<Rightarrow> SerialInventory list" where
  "bulk_units clk product form a b k =
     map (\<lambda>j. bulk_unit clk product form j (k + 3 * nat (j - a))) [a..b]"

section \<open>Concrete inputs\<close>

text \<open>
  The inputs of the examples: a clock, an observer that does not throw and one that does,
  the per-domain store after its first read and the global store after \<^verbatim>\<open>init\<close>, a
  few calls, a product, and the form filled in for the range from 1 to 3 and for the range
  from 1 to 1001.
\<close>

definition example_clock :: clock where
  "example_clock k = 1700000000000 + int k"

definition observer :: callback where
  "observer = \<lparr>cb_id = 1, cb_raises = False\<rparr>"

definition faulty_observer :: callback where
  "faulty_observer = \<lparr>cb_id = 0, cb_raises = True\<rparr>"

definition seeded :: "clock \<Rightarrow> SerialStoreManager" where
  "seeded clk = snd (getStore clk serialStore)"

definition g_seeded :: "clock \<Rightarrow> GlobalStoreManager" where
  "g_seeded clk = snd (g_init clk (globalStore clk))"

definition example_calls :: "call list" where
  "example_calls =
     [UpdateSerialStatus ''3'' Blocked (Some ''1''), AddSerials [],
      UpdateSerialStatus ''1'' Unassigned None, GetStore]"

definition example_product :: Product where
  "example_product = getDefaultProducts ! 0"


definition large_form :: AddSerialsForm where
  "large_form = \<lparr>prefix = ''CPU001X7'', startNumber = ''1'', endNumber = ''1001'',
     bulkExpiryDate = None, bulkAttributes = [], form_loading = False, toasts = []\<rparr>"

section \<open>Facts about the two stores and the form\<close>

subsection \<open>Notification rounds and list search\<close>

lemma deliver_called:
  "fst (deliver cs) =
     takeWhile (\<lambda>c. \<not> cb_raises c) cs @ take 1 (dropWhile (\<lambda>c. \<not> cb_raises c) cs)"
  by (induction cs) (auto split: prod.splits)

lemma deliver_threw: "snd (deliver cs) \<longleftrightarrow> (\<exists>c\<in>set cs. cb_raises c)"
  by (induction cs) (auto split: prod.splits)

lemma deliver_quiet: "\<forall>c\<in>set cs. \<not> cb_raises c \<Longrightarrow> deliver cs = (cs, False)"
  by (induction cs) auto

lemma deliver_reached: "deliver cs = (reached cs, list_ex cb_raises cs)"
  using deliver_called [of cs] deliver_threw [of cs]
  by (simp add: reached_def list_ex_iff prod_eq_iff)

lemma reached_faulty:
  "\<forall>c\<in>set before. \<not> cb_raises c \<Longrightarrow> cb_raises f \<Longrightarrow>
   reached (before @ f # after) = before @ [f]"
  by (simp add: reached_def takeWhile_append2 dropWhile_append2)

lemma quiet_deliver: "quiet cs \<Longrightarrow> deliver cs = (cs, False)"
  by (simp add: quiet_def deliver_quiet list_all_iff)

lemma quiet_sound: "quiet cs \<Longrightarrow> \<not> list_ex cb_raises cs"
  by (simp add: quiet_def list_all_iff list_ex_iff)

lemma reached_sound: "\<not> list_ex cb_raises cs \<Longrightarrow> reached cs = cs"
  by (induction cs) (simp_all add: reached_def)

lemma findIndex_None: "findIndex P xs = None \<longleftrightarrow> (\<forall>x\<in>set xs. \<not> P x)"
  by (induction xs) auto


lemma list_all_update: "list_all P xs \<Longrightarrow> P x \<Longrightarrow> list_all P (xs[i := x])"
  by (induction xs arbitrary: i) (auto split: nat.splits)

lemma length_by_status:
  "length xs = length (filter (\<lambda>s. status s = Unassigned) xs)
     + length (filter (\<lambda>s. status s = Blocked) xs)
     + length (filter (\<lambda>s. status s = Assigned) xs)"
proof (induction xs)
  case Nil
  show ?case by simp
next
  case (Cons x xs)
  then show ?case by (cases "status x") simp_all
qed

subsection \<open>The per-domain store in closed form\<close>

text \<open>
  What each operation returns, without the intermediate bindings: on any manager for
  \<^verbatim>\<open>setStore\<close>, on a manager with a stored record and on one without for the others.
\<close>

lemma open_db: "(if db m then m else init m) = m\<lparr>db := True\<rparr>"
  by (cases "db m") (simp_all add: init_def)

lemma setStore_eq:
  "setStore clk d m =
     (if list_ex cb_raises (subscribers m)
      then (Pending,
            m\<lparr>db := True, reads := Suc (reads m),
              trace := trace m @ Put (d\<lparr>lastUpdated := clk (reads m)\<rparr>)
                        # map Notified (reached (subscribers m)) @ [Aborted]\<rparr>)
      else (Completed,
            m\<lparr>db := True, reads := Suc (reads m),
              idb := Some (d\<lparr>lastUpdated := clk (reads m)\<rparr>),
              trace := trace m @ Put (d\<lparr>lastUpdated := clk (reads m)\<rparr>)
                        # map Notified (reached (subscribers m))\<rparr>))"
  by (simp add: setStore_def open_db Date_now_def notifySubscribers_def deliver_reached
        Let_def)

lemma idb_setStore:
  "idb (snd (setStore clk d m)) =
     (if list_ex cb_raises (subscribers m) then idb m
      else Some (d\<lparr>lastUpdated := clk (reads m)\<rparr>))"
  by (simp add: setStore_eq)

lemma fst_setStore:
  "fst (setStore clk d m) = (if list_ex cb_raises (subscribers m) then Pending else Completed)"
  by (simp add: setStore_eq)

lemma subscribers_setStore: "subscribers (snd (setStore clk d m)) = subscribers m"
  by (simp add: setStore_eq)

lemma setStore_stamp: "setStore clk (d\<lparr>lastUpdated := t\<rparr>) m = setStore clk d m"
  by (simp add: setStore_eq)

lemma getStore_stored: "idb m = Some s \<Longrightarrow> getStore clk m = (s, m\<lparr>db := True\<rparr>)"
  by (simp add: getStore_def open_db)

lemma getStore_first:
  "idb m = None \<Longrightarrow>
   getStore clk m =
     (defaultStore (clk (reads m)),
      snd (setStore clk (defaultStore (clk (reads m)))
             (m\<lparr>db := True, reads := Suc (reads m)\<rparr>)))"
  by (simp add: getStore_def open_db Date_now_def split_beta)

lemma getStore_first_kept:
  "idb m = None \<Longrightarrow> \<not> list_ex cb_raises (subscribers m) \<Longrightarrow>
   getStore clk m =
     (defaultStore (clk (reads m)),
      m\<lparr>db := True, reads := Suc (Suc (reads m)),
        idb := Some (defaultStore (clk (Suc (reads m)))),
        trace := trace m @ Put (defaultStore (clk (Suc (reads m))))
                  # map Notified (reached (subscribers m))\<rparr>)"
  by (simp add: getStore_first setStore_eq defaultStore_def)

lemma getStore_first_undone:
  "idb m = None \<Longrightarrow> list_ex cb_raises (subscribers m) \<Longrightarrow>
   idb (snd (getStore clk m)) = None"
  by (simp add: getStore_first idb_setStore)

lemma addSerials_stored:
  "idb m = Some s \<Longrightarrow>
   addSerials clk new m = setStore clk (s\<lparr>serials := serials s @ new\<rparr>) (m\<lparr>db := True\<rparr>)"
  by (simp add: addSerials_def getStore_stored)

lemma updateSerial_stored:
  "idb m = Some s \<Longrightarrow>
   updateSerial clk u m =
     (case findIndex (\<lambda>x. serial_id x = serial_id u) (serials s) of
        Some i \<Rightarrow> setStore clk (s\<lparr>serials := (serials s)[i := u]\<rparr>) (m\<lparr>db := True\<rparr>)
      | None \<Rightarrow> (Completed, m\<lparr>db := True\<rparr>))"
  by (simp add: updateSerial_def getStore_stored)

lemma updateSerialStatus_stored:
  "idb m = Some s \<Longrightarrow>
   updateSerialStatus clk sid st a m =
     (case findIndex (\<lambda>x. serial_id x = sid) (serials s) of
        Some i \<Rightarrow>
          setStore clk
            (s\<lparr>serials := (serials s)
                [i := (serials s ! i)\<lparr>status := st, asn_id := a, updated_date := clk (reads m)\<rparr>]\<rparr>)
            (m\<lparr>db := True, reads := Suc (reads m)\<rparr>)
      | None \<Rightarrow> (Completed, m\<lparr>db := True\<rparr>))"
  by (simp add: updateSerialStatus_def getStore_stored Date_now_def Let_def
        split: option.splits)

lemma updateSerialStatus_unknown:
  assumes "idb m = Some s" and "\<forall>u\<in>set (serials s). serial_id u \<noteq> sid"
  shows "updateSerialStatus clk sid st a m = (Completed, m\<lparr>db := True\<rparr>)"
  using assms by (simp add: updateSerialStatus_stored findIndex_None [THEN iffD2])

lemma updateSerialStatus_known:
  assumes "idb m = Some s" and "findIndex (\<lambda>x. serial_id x = sid) (serials s) = Some i"
  shows "idb (snd (updateSerialStatus clk sid st a m)) =
     (if list_ex cb_raises (subscribers m) then Some s
      else Some (s\<lparr>serials := (serials s)
                [i := (serials s ! i)\<lparr>status := st, asn_id := a, updated_date := clk (reads m)\<rparr>],
             lastUpdated := clk (Suc (reads m))\<rparr>))"
    and "fst (updateSerialStatus clk sid st a m) =
     (if list_ex cb_raises (subscribers m) then Pending else Completed)"
  using assms by (simp_all add: updateSerialStatus_stored setStore_eq)

lemma addSerials_unobserved:
  "idb m = Some s \<Longrightarrow> subscribers m = [] \<Longrightarrow> fst (addSerials clk new m) = Completed"
  by (simp add: addSerials_stored setStore_eq)

lemma perform_first:
  assumes "idb m = None" and quiet: "\<not> list_ex cb_raises (subscribers m)"
  shows "snd (perform clk call m) = snd (perform clk call (snd (getStore clk m)))"
proof -
  let ?m1 = "snd (getStore clk m)"
  have stored: "idb ?m1 = Some (defaultStore (clk (Suc (reads m))))"
    and opened: "?m1\<lparr>db := True\<rparr> = ?m1"
    and first: "fst (getStore clk m) = defaultStore (clk (reads m))"
    using assms by (simp_all add: getStore_first_kept)
  have fs: "serials (defaultStore t) = getDefaultSerials" for t
    by (simp add: defaultStore_def)
  have same: "(defaultStore t)\<lparr>serials := xs\<rparr> =
      (defaultStore t')\<lparr>serials := xs, lastUpdated := t\<rparr>" for t t' xs
    by (simp add: defaultStore_def)
  have re: "setStore clk ((defaultStore t)\<lparr>serials := xs\<rparr>) n =
      setStore clk ((defaultStore t')\<lparr>serials := xs\<rparr>) n" for t t' xs n
    using setStore_stamp [where clk = clk and d = "(defaultStore t')\<lparr>serials := xs\<rparr>"
        and t = t and m = n]
    by (simp add: defaultStore_def)
  show ?thesis
  proof (cases call)
    case (AddSerials new)
    have "addSerials clk new m =
        setStore clk ((defaultStore (clk (reads m)))\<lparr>serials := getDefaultSerials @ new\<rparr>) ?m1"
      by (simp add: addSerials_def split_beta first fs)
    also have "\<dots> = addSerials clk new ?m1"
      by (simp add: addSerials_stored [OF stored] opened fs
            re [where t = "clk (reads m)" and t' = "clk (Suc (reads m))"])
    finally show ?thesis by (simp add: AddSerials)
  next
    case (UpdateSerial u)
    show ?thesis
    proof (cases "findIndex (\<lambda>x. serial_id x = serial_id u) getDefaultSerials")
      case None
      then have "updateSerial clk u m = updateSerial clk u ?m1"
        by (simp add: updateSerial_def [of clk u m] split_beta first fs
              updateSerial_stored [OF stored] opened)
      then show ?thesis by (simp add: UpdateSerial)
    next
      case (Some i)
      then have "updateSerial clk u m = updateSerial clk u ?m1"
        by (simp add: updateSerial_def [of clk u m] split_beta first fs
              updateSerial_stored [OF stored] opened
              re [where t = "clk (reads m)" and t' = "clk (Suc (reads m))"])
      then show ?thesis by (simp add: UpdateSerial)
    qed
  next
    case (UpdateSerialStatus sid st a)
    show ?thesis
    proof (cases "findIndex (\<lambda>x. serial_id x = sid) getDefaultSerials")
      case None
      then have "updateSerialStatus clk sid st a m = updateSerialStatus clk sid st a ?m1"
        by (simp add: updateSerialStatus_def [of clk sid st a m] split_beta first fs
              updateSerialStatus_stored [OF stored] opened)
      then show ?thesis by (simp add: UpdateSerialStatus)
    next
      case (Some i)
      then have "updateSerialStatus clk sid st a m = updateSerialStatus clk sid st a ?m1"
        by (simp add: updateSerialStatus_def [of clk sid st a m] split_beta first fs
              Date_now_def Let_def updateSerialStatus_stored [OF stored] opened
              re [where t = "clk (reads m)" and t' = "clk (Suc (reads m))"])
      then show ?thesis by (simp add: UpdateSerialStatus)
    qed
  next
    case GetStore
    then show ?thesis by (simp add: getStore_stored [OF stored] opened)
  qed
qed

lemma seeded_eq:
  "seeded clk = \<lparr>db = True, subscribers = [], idb = Some (defaultStore (clk 1)),
                  trace = [Put (defaultStore (clk 1))], reads = 2\<rparr>"
  by (simp add: seeded_def serialStore_def getStore_first_kept reached_def numeral_2_eq_2)

lemma subscribed_eq:
  "subscribe observer (seeded clk) =
     \<lparr>db = True, subscribers = [observer], idb = Some (defaultStore (clk 1)),
      trace = [Put (defaultStore (clk 1))], reads = 2\<rparr>"
  by (simp add: subscribe_def seeded_eq)

subsection \<open>The global store in closed form\<close>

lemma setState_eq:
  "setState clk upd g =
     (let updates = fst (upd clk (g_reads g) (g_state g));
          k = snd (upd clk (g_reads g) (g_state g));
          g2 = g\<lparr>g_reads := Suc k,
                 g_state := merge_updates (g_state g) updates (clk k),
                 g_trace := g_trace g @ map Notified (fst (deliver (g_subscribers g)))\<rparr>
      in if snd (deliver (g_subscribers g)) then (Thrown, g2) else (Completed, saveState g2))"
  by (simp add: setState_def g_Date_now_def g_notifySubscribers_def Let_def
        split: prod.splits)

lemma g_state_saveState: "g_state (saveState g) = g_state g"
  by (simp add: saveState_def)

lemma g_state_setState:
  "g_state (snd (setState clk upd g)) =
     merge_updates (g_state g) (fst (upd clk (g_reads g) (g_state g)))
       (clk (snd (upd clk (g_reads g) (g_state g))))"
  by (simp add: setState_eq Let_def g_state_saveState)

lemma g_trace_setState:
  "g_trace (snd (setState clk upd g)) =
     g_trace g @ map Notified (fst (deliver (g_subscribers g))) @
       (if \<not> snd (deliver (g_subscribers g)) \<and> g_db g
        then [Put (merge_updates (g_state g) (fst (upd clk (g_reads g) (g_state g)))
                     (clk (snd (upd clk (g_reads g) (g_state g)))))]
        else [])"
  by (simp add: setState_eq Let_def saveState_def)

lemma g_subscribers_setState: "g_subscribers (snd (setState clk upd g)) = g_subscribers g"
  by (simp add: setState_eq Let_def saveState_def)

lemma mark_status_unknown:
  "\<forall>u\<in>set xs. serial_id u \<noteq> sid \<Longrightarrow> mark_status clk sid st a xs k = (xs, k)"
  by (induction xs arbitrary: k) auto


lemma mark_status_related:
  "list_all2 (marked sid st a) xs (fst (mark_status clk sid st a xs k))"
proof (induction xs arbitrary: k)
  case Nil
  show ?case by simp
next
  case (Cons x xs)
  show ?case
  proof (cases "serial_id x = sid")
    case True
    have "marked sid st a x (x\<lparr>status := st, asn_id := a, updated_date := clk k\<rparr>)"
      using True by (simp add: marked_def)
    with True Cons.IH [of "Suc k"] show ?thesis by (simp add: split_beta)
  next
    case False
    have "marked sid st a x x" using False by (simp add: marked_def)
    with False Cons.IH [of k] show ?thesis by (simp add: split_beta)
  qed
qed


lemma mark_status_ok:
  "list_all (unit_ok A) xs \<Longrightarrow> pair_ok A st a \<Longrightarrow>
   list_all (unit_ok A) (fst (mark_status clk sid st a xs k))"
  by (induction xs arbitrary: k) (simp_all add: split_beta unit_ok_def)

lemma g_state_updateSerialStatus:
  "g_state (snd (g_updateSerialStatus clk sid st a g)) =
     (g_state g)\<lparr>g_serials := fst (mark_status clk sid st a (g_serials (g_state g)) (g_reads g)),
                 system := (system (g_state g))
                   \<lparr>system_lastUpdated :=
                      clk (snd (mark_status clk sid st a (g_serials (g_state g)) (g_reads g)))\<rparr>\<rparr>"
  by (simp add: g_updateSerialStatus_def g_state_setState merge_updates_def no_updates_def
        split_beta)

lemma g_rest_updateSerialStatus:
  "g_asns (g_state (snd (g_updateSerialStatus clk sid st a g))) = g_asns (g_state g) \<and>
   g_products (g_state (snd (g_updateSerialStatus clk sid st a g))) = g_products (g_state g) \<and>
   ui (g_state (snd (g_updateSerialStatus clk sid st a g))) = ui (g_state g)"
  by (simp add: g_state_updateSerialStatus)

lemma g_unknown_updateSerialStatus:
  assumes "\<forall>u\<in>set (g_serials (g_state g)). serial_id u \<noteq> sid"
  shows "g_serials (g_state (snd (g_updateSerialStatus clk sid st a g))) = g_serials (g_state g)"
    and "system_lastUpdated (system (g_state (snd (g_updateSerialStatus clk sid st a g))))
           = clk (g_reads g)"
    and "g_trace (snd (g_updateSerialStatus clk sid st a g)) =
           g_trace g @ map Notified (fst (deliver (g_subscribers g))) @
             (if \<not> snd (deliver (g_subscribers g)) \<and> g_db g
              then [Put (g_state (snd (g_updateSerialStatus clk sid st a g)))] else [])"
proof -
  show "g_serials (g_state (snd (g_updateSerialStatus clk sid st a g))) = g_serials (g_state g)"
    by (simp add: g_state_updateSerialStatus mark_status_unknown [OF assms])
  show "system_lastUpdated (system (g_state (snd (g_updateSerialStatus clk sid st a g))))
           = clk (g_reads g)"
    by (simp add: g_state_updateSerialStatus mark_status_unknown [OF assms])
  have "g_trace (snd (g_updateSerialStatus clk sid st a g)) =
           g_trace g @ map Notified (fst (deliver (g_subscribers g))) @
             (if \<not> snd (deliver (g_subscribers g)) \<and> g_db g
              then [Put (g_state (snd (setState clk (\<lambda>clk k st'.
       (let (serials', k') = mark_status clk sid st a (g_serials st') k
        in (no_updates\<lparr>upd_serials := Some serials'\<rparr>, k'))) g)))] else [])"
    unfolding g_updateSerialStatus_def g_trace_setState g_state_setState by simp
  then show "g_trace (snd (g_updateSerialStatus clk sid st a g)) =
           g_trace g @ map Notified (fst (deliver (g_subscribers g))) @
             (if \<not> snd (deliver (g_subscribers g)) \<and> g_db g
              then [Put (g_state (snd (g_updateSerialStatus clk sid st a g)))] else [])"
    by (simp add: g_updateSerialStatus_def)
qed

lemma g_state_addSerials:
  "g_state (snd (g_addSerials clk new g)) =
     (g_state g)\<lparr>g_serials := g_serials (g_state g) @ new,
                 system := (system (g_state g))\<lparr>system_lastUpdated := clk (g_reads g)\<rparr>\<rparr>"
  by (simp add: g_addSerials_def g_state_setState merge_updates_def no_updates_def)

lemma g_state_updateSerial:
  "g_state (snd (g_updateSerial clk u g)) =
     (g_state g)\<lparr>g_serials := map (\<lambda>serial. if serial_id serial = serial_id u then u else serial)
                                 (g_serials (g_state g)),
                 system := (system (g_state g))\<lparr>system_lastUpdated := clk (g_reads g)\<rparr>\<rparr>"
  by (simp add: g_updateSerial_def g_state_setState merge_updates_def no_updates_def)

lemma g_state_init_first:
  "g_idb g = None \<Longrightarrow>
   g_state (snd (g_init clk g)) =
     (defaultState clk)\<lparr>g_serials := getDefaultSerials, g_asns := g_getDefaultASNs,
                         g_products := g_getDefaultProducts\<rparr>"
  by (simp add: g_init_def loadState_def g_notifySubscribers_def split_beta)

lemma g_seeded_eq:
  "g_seeded clk =
     \<lparr>g_state = (defaultState clk)\<lparr>g_serials := getDefaultSerials, g_asns := g_getDefaultASNs,
                                   g_products := g_getDefaultProducts\<rparr>,
      g_subscribers = [], g_db = True, g_idb = None, g_trace = [], g_reads = 1\<rparr>"
  by (simp add: g_seeded_def g_init_def loadState_def globalStore_def g_notifySubscribers_def)

subsection \<open>Sound snapshots are kept\<close>

lemma sound_invariant: "sound A s \<Longrightarrow> status_invariant s"
  by (simp add: sound_def status_invariant_def)

lemma sound_defaultStore: "sound getDefaultASNs (defaultStore t)"
  by (simp add: sound_def defaultStore_def getDefaultSerials_def getDefaultASNs_def
        unit_ok_def pair_ok_def)

lemma sound_stamp: "sound A (s\<lparr>lastUpdated := t\<rparr>) = sound A s"
  by (simp add: sound_def)

lemma kept_open: "kept A (m\<lparr>db := True\<rparr>) = kept A m"
  by (simp add: kept_def)

lemma kept_reads: "kept A (m\<lparr>reads := k\<rparr>) = kept A m"
  by (simp add: kept_def)

lemma sound_read: "kept A m \<Longrightarrow> sound A (fst (getStore clk m))"
  by (cases "idb m") (simp_all add: kept_def getStore_first getStore_stored sound_defaultStore)

lemma kept_setStore: "kept A m \<Longrightarrow> sound A d \<Longrightarrow> kept A (snd (setStore clk d m))"
  by (simp add: kept_def idb_setStore sound_stamp)

lemma kept_getStore: "kept A m \<Longrightarrow> kept A (snd (getStore clk m))"
proof (cases "idb m")
  case None
  assume k: "kept A m"
  with None have A: "A = getDefaultASNs" by (simp add: kept_def)
  have "kept A (m\<lparr>db := True, reads := Suc (reads m)\<rparr>)"
    using k by (simp add: kept_def)
  then have "kept A (snd (setStore clk (defaultStore (clk (reads m)))
      (m\<lparr>db := True, reads := Suc (reads m)\<rparr>)))"
    using A by (simp add: kept_setStore sound_defaultStore)
  then show ?thesis by (simp add: getStore_first [OF None])
next
  case (Some s)
  assume "kept A m"
  then show ?thesis by (simp add: getStore_stored [OF Some] kept_open)
qed

lemma kept_perform:
  assumes m: "kept A m" and c: "call_ok A c"
  shows "kept A (snd (perform clk c m))"
proof -
  let ?store = "fst (getStore clk m)" and ?m1 = "snd (getStore clk m)"
  have store: "sound A ?store" using m by (rule sound_read)
  then have inv: "list_all (unit_ok A) (serials ?store)" and as: "asns ?store = A"
    by (simp_all add: sound_def)
  have m1: "kept A ?m1" using m by (rule kept_getStore)
  show ?thesis
  proof (cases c)
    case (AddSerials new)
    with c have "list_all (unit_ok A) (serials ?store @ new)" using inv by simp
    then have "sound A (?store\<lparr>serials := serials ?store @ new\<rparr>)"
      using as by (simp add: sound_def)
    then show ?thesis
      using m1 by (simp add: AddSerials addSerials_def split_beta kept_setStore)
  next
    case (UpdateSerial u)
    show ?thesis
    proof (cases "findIndex (\<lambda>x. serial_id x = serial_id u) (serials ?store)")
      case None
      then show ?thesis using m1 by (simp add: UpdateSerial updateSerial_def split_beta)
    next
      case (Some i)
      from c UpdateSerial have "list_all (unit_ok A) ((serials ?store)[i := u])"
        using inv by (simp add: list_all_update)
      then have "sound A (?store\<lparr>serials := (serials ?store)[i := u]\<rparr>)"
        using as by (simp add: sound_def)
      then show ?thesis
        using m1 by (simp add: UpdateSerial updateSerial_def split_beta Some kept_setStore)
    qed
  next
    case (UpdateSerialStatus sid st a)
    show ?thesis
    proof (cases "findIndex (\<lambda>x. serial_id x = sid) (serials ?store)")
      case None
      then show ?thesis
        using m1 by (simp add: UpdateSerialStatus updateSerialStatus_def split_beta)
    next
      case (Some i)
      let ?u = "(serials ?store ! i)\<lparr>status := st, asn_id := a,
                   updated_date := clk (reads ?m1)\<rparr>"
      from c UpdateSerialStatus have "unit_ok A ?u" by (simp add: unit_ok_def)
      then have "list_all (unit_ok A) ((serials ?store)[i := ?u])"
        using inv by (simp add: list_all_update)
      then have "sound A (?store\<lparr>serials := (serials ?store)[i := ?u]\<rparr>)"
        using as by (simp add: sound_def)
      moreover have "kept A (?m1\<lparr>reads := Suc (reads ?m1)\<rparr>)"
        using m1 by (simp add: kept_reads)
      ultimately show ?thesis
        by (simp add: UpdateSerialStatus updateSerialStatus_def split_beta Some kept_setStore
              Date_now_def Let_def)
    qed
  next
    case GetStore
    then show ?thesis using m1 by simp
  qed
qed

lemma kept_run:
  "kept A m \<Longrightarrow> list_all (call_ok A) calls \<Longrightarrow> kept A (run clk calls m)"
proof (induction calls arbitrary: m)
  case Nil
  then show ?case by simp
next
  case (Cons c calls)
  from Cons.prems have "kept A (snd (perform clk c m))"
    by (simp add: kept_perform)
  with Cons.IH [of "snd (perform clk c m)"] Cons.prems(2) show ?case by simp
qed

lemma g_sound_invariant: "g_sound A st \<Longrightarrow> g_status_invariant st"
  by (simp add: g_sound_def g_status_invariant_def)

lemma g_sound_seed:
  "g_sound g_getDefaultASNs
     ((defaultState clk)\<lparr>g_serials := getDefaultSerials, g_asns := g_getDefaultASNs,
                         g_products := g_getDefaultProducts\<rparr>)"
  by (simp add: g_sound_def getDefaultSerials_def g_getDefaultASNs_def unit_ok_def pair_ok_def)

lemma g_sound_perform:
  assumes "g_sound A (g_state g)" and "call_ok A c"
  shows "g_sound A (g_state (snd (g_perform clk c g)))"
proof (cases c)
  case (AddSerials new)
  with assms show ?thesis by (simp add: g_state_addSerials g_sound_def)
next
  case (UpdateSerial u)
  with assms show ?thesis
    by (auto simp: g_state_updateSerial g_sound_def list_all_iff)
next
  case (UpdateSerialStatus sid st a)
  with assms show ?thesis
    by (simp add: g_state_updateSerialStatus g_sound_def mark_status_ok)
next
  case GetStore
  with assms show ?thesis by simp
qed

lemma g_sound_run:
  "g_sound A (g_state g) \<Longrightarrow> list_all (call_ok A) calls \<Longrightarrow>
   g_sound A (g_state (g_run clk calls g))"
proof (induction calls arbitrary: g)
  case Nil
  then show ?case by simp
next
  case (Cons c calls)
  from Cons.prems have "g_sound A (g_state (snd (g_perform clk c g)))"
    by (simp add: g_sound_perform)
  with Cons.IH [of "snd (g_perform clk c g)"] Cons.prems(2) show ?case by simp
qed

subsection \<open>The products are kept\<close>

lemma products_perform:
  assumes "idb m = Some s"
  shows "\<exists>s'. idb (snd (perform clk c m)) = Some s' \<and> products s' = products s"
proof (cases c)
  case (AddSerials new)
  with assms show ?thesis by (simp add: addSerials_stored idb_setStore)
next
  case (UpdateSerial u)
  with assms show ?thesis
    by (simp add: updateSerial_stored idb_setStore split: option.splits)
next
  case (UpdateSerialStatus sid st a)
  with assms show ?thesis
    by (simp add: updateSerialStatus_stored idb_setStore split: option.splits)
next
  case GetStore
  with assms show ?thesis by (simp add: getStore_stored)
qed

lemma products_run:
  "idb m = Some s \<Longrightarrow> \<exists>s'. idb (run clk calls m) = Some s' \<and> products s' = products s"
proof (induction calls arbitrary: m s)
  case Nil
  then show ?case by simp
next
  case (Cons c calls)
  from products_perform [OF Cons.prems, of clk c]
  obtain s1 where s1: "idb (snd (perform clk c m)) = Some s1" "products s1 = products s"
    by blast
  from Cons.IH [OF s1(1)] s1(2) show ?case by simp
qed

lemma stocked_read: "stocked m \<Longrightarrow> products (fst (getStore clk m)) = getDefaultProducts"
  by (cases "idb m")
     (simp_all add: stocked_def getStore_first getStore_stored defaultStore_def)

lemma stocked_setStore:
  "stocked m \<Longrightarrow> products d = getDefaultProducts \<Longrightarrow> stocked (snd (setStore clk d m))"
  by (simp add: stocked_def idb_setStore)

lemma stocked_getStore: "stocked m \<Longrightarrow> stocked (snd (getStore clk m))"
proof (cases "idb m")
  case None
  assume "stocked m"
  then have "stocked (m\<lparr>db := True, reads := Suc (reads m)\<rparr>)"
    by (simp add: stocked_def)
  then have "stocked (snd (setStore clk (defaultStore (clk (reads m)))
      (m\<lparr>db := True, reads := Suc (reads m)\<rparr>)))"
    by (simp add: stocked_setStore defaultStore_def)
  then show ?thesis by (simp add: getStore_first [OF None])
next
  case (Some s)
  assume "stocked m"
  then show ?thesis by (simp add: getStore_stored [OF Some] stocked_def)
qed

lemma stocked_perform:
  assumes m: "stocked m"
  shows "stocked (snd (perform clk c m))"
proof -
  let ?store = "fst (getStore clk m)" and ?m1 = "snd (getStore clk m)"
  have store: "products ?store = getDefaultProducts" using m by (rule stocked_read)
  have m1: "stocked ?m1" using m by (rule stocked_getStore)
  then have m2: "stocked (?m1\<lparr>reads := k\<rparr>)" for k by (simp add: stocked_def)
  show ?thesis
  proof (cases c)
    case (AddSerials new)
    then show ?thesis
      using m1 store by (simp add: addSerials_def split_beta stocked_setStore)
  next
    case (UpdateSerial u)
    then show ?thesis
      using m1 store
      by (cases "findIndex (\<lambda>x. serial_id x = serial_id u) (serials ?store)")
         (simp_all add: updateSerial_def split_beta stocked_setStore)
  next
    case (UpdateSerialStatus sid st a)
    then show ?thesis
      using m1 m2 store
      by (cases "findIndex (\<lambda>x. serial_id x = sid) (serials ?store)")
         (simp_all add: updateSerialStatus_def split_beta stocked_setStore Date_now_def
            Let_def)
  next
    case GetStore
    then show ?thesis using m1 by simp
  qed
qed

lemma stocked_run: "stocked m \<Longrightarrow> stocked (run clk calls m)"
proof (induction calls arbitrary: m)
  case Nil
  then show ?case by simp
next
  case (Cons c calls)
  from Cons.prems have "stocked (snd (perform clk c m))" by (rule stocked_perform)
  with Cons.IH [of "snd (perform clk c m)"] show ?case by simp
qed

lemma getDefaultProducts_nonempty: "getDefaultProducts \<noteq> []"
  by (simp add: getDefaultProducts_def)

subsection \<open>Counting notifications and puts\<close>

lemma notifications_append:
  "notifications c (tr @ tr') = notifications c tr + notifications c tr'"
  by (simp add: notifications_def)

lemma puts_append: "puts (tr @ tr') = puts tr + puts tr'"
  by (simp add: puts_def)

lemma notifications_absent: "c \<notin> set cs \<Longrightarrow> notifications c (map Notified cs :: 'r event list) = 0"
  by (induction cs) (auto simp: notifications_def)

lemma notifications_round:
  "distinct cs \<Longrightarrow> c \<in> set cs \<Longrightarrow> notifications c (map Notified cs :: 'r event list) = 1"
proof (induction cs)
  case Nil
  then show ?case by simp
next
  case (Cons x cs)
  show ?case
  proof (cases "x = c")
    case True
    with Cons.prems have "c \<notin> set cs" by simp
    then have "notifications c (map Notified cs :: 'r event list) = 0" by (rule notifications_absent)
    with True show ?thesis by (simp add: notifications_def)
  next
    case False
    with Cons have "notifications c (map Notified cs :: 'r event list) = 1" by simp
    with False show ?thesis by (simp add: notifications_def)
  qed
qed

lemma puts_round: "puts (map Notified cs) = 0"
  by (induction cs) (simp_all add: puts_def)

lemma setStore_quiet:
  assumes "quiet (subscribers m)"
  shows "setStore clk d m =
     (Completed,
      m\<lparr>db := True, reads := Suc (reads m),
        idb := Some (d\<lparr>lastUpdated := clk (reads m)\<rparr>),
        trace := trace m @ Put (d\<lparr>lastUpdated := clk (reads m)\<rparr>)
                  # map Notified (subscribers m)\<rparr>)"
  by (simp add: setStore_eq quiet_sound [OF assms] reached_sound)

lemma setStore_round:
  assumes "quiet (subscribers m)" and "c \<in> set (subscribers m)"
  shows "notifications c (trace (snd (setStore clk d m))) = Suc (notifications c (trace m))"
    and "puts (trace (snd (setStore clk d m))) = Suc (puts (trace m))"
    and "subscribers (snd (setStore clk d m)) = subscribers m"
proof -
  from assms have one: "notifications c (map Notified (subscribers m)) = 1"
    by (simp add: quiet_def notifications_round)
  have cons: "notifications c (Put r # tr) = notifications c tr" for r :: SerialStore and tr
    by (simp add: notifications_def)
  have pcons: "puts (Put r # tr) = Suc (puts tr)" for r :: SerialStore and tr
    by (simp add: puts_def)
  show "notifications c (trace (snd (setStore clk d m))) = Suc (notifications c (trace m))"
    by (simp add: setStore_quiet [OF assms(1)] notifications_append cons one)
  show "puts (trace (snd (setStore clk d m))) = Suc (puts (trace m))"
    by (simp add: setStore_quiet [OF assms(1)] puts_append pcons puts_round)
  show "subscribers (snd (setStore clk d m)) = subscribers m"
    by (simp add: setStore_eq)
qed

lemma perform_stored_round:
  assumes s: "idb m = Some s" and q: "quiet (subscribers m)" and c: "c \<in> set (subscribers m)"
  shows "notifications c (trace (snd (perform clk call m))) =
           notifications c (trace m) + (if writes s call then 1 else 0)"
    and "puts (trace (snd (perform clk call m))) =
           puts (trace m) + (if writes s call then 1 else 0)"
    and "subscribers (snd (perform clk call m)) = subscribers m"
    and "idb (snd (perform clk call m)) \<noteq> None"
proof -
  have q': "quiet (subscribers (m\<lparr>db := True\<rparr>))" "c \<in> set (subscribers (m\<lparr>db := True\<rparr>))"
       "quiet (subscribers (m\<lparr>db := True, reads := Suc (reads m)\<rparr>))"
       "c \<in> set (subscribers (m\<lparr>db := True, reads := Suc (reads m)\<rparr>))"
    using q c by simp_all
  note r1 = setStore_round [OF q'(1) q'(2)]
  note r2 = setStore_round [OF q'(3) q'(4)]
  note lq = quiet_sound [OF q]
  have ex: "list_ex P xs \<longleftrightarrow> findIndex P xs \<noteq> None" for P :: "SerialInventory \<Rightarrow> bool" and xs
    by (simp add: findIndex_None list_ex_iff)
  have "notifications c (trace (snd (perform clk call m))) =
           notifications c (trace m) + (if writes s call then 1 else 0) \<and>
        puts (trace (snd (perform clk call m))) =
           puts (trace m) + (if writes s call then 1 else 0) \<and>
        subscribers (snd (perform clk call m)) = subscribers m \<and>
        idb (snd (perform clk call m)) \<noteq> None"
  proof (cases call)
    case (AddSerials new)
    then show ?thesis using s by (simp add: addSerials_stored r1 idb_setStore lq)
  next
    case (UpdateSerial u)
    then show ?thesis using s
      by (cases "findIndex (\<lambda>x. serial_id x = serial_id u) (serials s)")
         (simp_all add: updateSerial_stored r1 idb_setStore ex lq)
  next
    case (UpdateSerialStatus sid st a)
    then show ?thesis using s
      by (cases "findIndex (\<lambda>x. serial_id x = sid) (serials s)")
         (simp_all add: updateSerialStatus_stored r2 idb_setStore ex lq)
  next
    case GetStore
    then show ?thesis using s by (simp add: getStore_stored)
  qed
  then show "notifications c (trace (snd (perform clk call m))) =
           notifications c (trace m) + (if writes s call then 1 else 0)"
    and "puts (trace (snd (perform clk call m))) =
           puts (trace m) + (if writes s call then 1 else 0)"
    and "subscribers (snd (perform clk call m)) = subscribers m"
    and "idb (snd (perform clk call m)) \<noteq> None"
    by simp_all
qed

lemma getStore_first_round:
  assumes s: "idb m = None" and q: "quiet (subscribers m)" and c: "c \<in> set (subscribers m)"
  shows "notifications c (trace (snd (getStore clk m))) = Suc (notifications c (trace m))"
    and "puts (trace (snd (getStore clk m))) = Suc (puts (trace m))"
    and "subscribers (snd (getStore clk m)) = subscribers m"
    and "idb (snd (getStore clk m)) = Some (defaultStore (clk (Suc (reads m))))"
proof -
  from q c have one: "notifications c (map Notified (subscribers m)) = 1"
    by (simp add: quiet_def notifications_round)
  have cons: "notifications c (Put r # tr) = notifications c tr" for r :: SerialStore and tr
    by (simp add: notifications_def)
  have pcons: "puts (Put r # tr) = Suc (puts tr)" for r :: SerialStore and tr
    by (simp add: puts_def)
  note first = getStore_first_kept [OF s quiet_sound [OF q], of clk]
  note same = reached_sound [OF quiet_sound [OF q]]
  show "notifications c (trace (snd (getStore clk m))) = Suc (notifications c (trace m))"
    by (simp add: first same notifications_append cons one)
  show "puts (trace (snd (getStore clk m))) = Suc (puts (trace m))"
    by (simp add: first same puts_append pcons puts_round)
  show "subscribers (snd (getStore clk m)) = subscribers m"
    by (simp add: first)
  show "idb (snd (getStore clk m)) = Some (defaultStore (clk (Suc (reads m))))"
    by (simp add: first)
qed

lemma perform_balance:
  assumes q: "quiet (subscribers m)" and c: "c \<in> set (subscribers m)"
  shows "notifications c (trace (snd (perform clk call m))) + puts (trace m) =
           notifications c (trace m) + puts (trace (snd (perform clk call m)))"
    and "subscribers (snd (perform clk call m)) = subscribers m"
proof -
  have "notifications c (trace (snd (perform clk call m))) + puts (trace m) =
           notifications c (trace m) + puts (trace (snd (perform clk call m))) \<and>
        subscribers (snd (perform clk call m)) = subscribers m"
  proof (cases "idb m")
    case (Some s)
    from perform_stored_round(1-3) [OF Some q c, of clk call] show ?thesis by simp
  next
    case None
    let ?m1 = "snd (getStore clk m)"
    note g = getStore_first_round [OF None q c, of clk]
    from g(3) q c have q1: "quiet (subscribers ?m1)" and c1: "c \<in> set (subscribers ?m1)"
      by simp_all
    from perform_stored_round(1-3) [OF g(4) q1 c1, of clk call] g(1-3)
    show ?thesis by (simp add: perform_first [OF None quiet_sound [OF q]])
  qed
  then show "notifications c (trace (snd (perform clk call m))) + puts (trace m) =
           notifications c (trace m) + puts (trace (snd (perform clk call m)))"
    and "subscribers (snd (perform clk call m)) = subscribers m"
    by simp_all
qed

lemma run_balance:
  "quiet (subscribers m) \<Longrightarrow> c \<in> set (subscribers m) \<Longrightarrow>
   notifications c (trace (run clk calls m)) + puts (trace m) =
     notifications c (trace m) + puts (trace (run clk calls m))"
proof (induction calls arbitrary: m)
  case Nil
  show ?case by simp
next
  case (Cons call calls)
  let ?m1 = "snd (perform clk call m)"
  note step = perform_balance [OF Cons.prems, of clk call]
  from step(2) Cons.prems have "quiet (subscribers ?m1)" and "c \<in> set (subscribers ?m1)"
    by simp_all
  from Cons.IH [OF this] step(1) show ?case by simp
qed

lemma g_trace_setState_quiet:
  assumes "quiet (g_subscribers g)"
  shows "g_trace (snd (setState clk upd g)) =
     g_trace g @ map Notified (g_subscribers g) @
       (if g_db g then [Put (g_state (snd (setState clk upd g)))] else [])"
  by (simp add: g_trace_setState g_state_setState quiet_deliver [OF assms])

lemma setState_round:
  assumes q: "quiet (g_subscribers g)" and c: "c \<in> set (g_subscribers g)"
  shows "notifications c (g_trace (snd (setState clk upd g))) = Suc (notifications c (g_trace g))"
proof -
  from q c have one: "notifications c (map Notified (g_subscribers g) :: GlobalState event list) = 1"
    by (simp add: quiet_def notifications_round)
  have last: "notifications c [Put r] = 0" for r :: GlobalState
    by (simp add: notifications_def)
  show ?thesis
    by (simp add: g_trace_setState_quiet [OF q] notifications_append one last)
       (simp add: notifications_def)
qed

lemma g_perform_round:
  assumes q: "quiet (g_subscribers g)" and c: "c \<in> set (g_subscribers g)"
  shows "notifications c (g_trace (snd (g_perform clk call g))) =
           notifications c (g_trace g) + (if is_mutation call then 1 else 0)"
    and "g_subscribers (snd (g_perform clk call g)) = g_subscribers g"
proof -
  have "notifications c (g_trace (snd (g_perform clk call g))) =
           notifications c (g_trace g) + (if is_mutation call then 1 else 0) \<and>
        g_subscribers (snd (g_perform clk call g)) = g_subscribers g"
    by (cases call)
       (simp_all add: g_addSerials_def g_updateSerial_def g_updateSerialStatus_def
          setState_round [OF q c] g_subscribers_setState)
  then show "notifications c (g_trace (snd (g_perform clk call g))) =
           notifications c (g_trace g) + (if is_mutation call then 1 else 0)"
    and "g_subscribers (snd (g_perform clk call g)) = g_subscribers g"
    by simp_all
qed

lemma g_run_rounds:
  "quiet (g_subscribers g) \<Longrightarrow> c \<in> set (g_subscribers g) \<Longrightarrow>
   notifications c (g_trace (g_run clk calls g)) =
     notifications c (g_trace g) + length (filter is_mutation calls)"
proof (induction calls arbitrary: g)
  case Nil
  show ?case by simp
next
  case (Cons call calls)
  let ?g1 = "snd (g_perform clk call g)"
  note step = g_perform_round [OF Cons.prems, of clk call]
  from step(2) Cons.prems have "quiet (g_subscribers ?g1)" and "c \<in> set (g_subscribers ?g1)"
    by simp_all
  from Cons.IH [OF this] step(1) show ?case by simp
qed

lemma g_subscribe_replay:
  assumes "quiet (g_subscribers g)" and "\<not> cb_raises c"
  shows "notifications c (g_trace (snd (g_subscribe c g))) = Suc (notifications c (g_trace g))"
    and "quiet (g_subscribers (snd (g_subscribe c g)))"
    and "c \<in> set (g_subscribers (snd (g_subscribe c g)))"
  using assms
  by (simp_all add: g_subscribe_def Let_def notifications_def quiet_def)

subsection \<open>The loop of bulk generation\<close>

lemma parseInt_safe: "parseInt str = Num v \<Longrightarrow> safe_integer v"
  by (auto simp: parseInt_def Let_def split_beta split: if_splits)

lemma bulk_loop_step:
  "bulk_loop clk product form i e acc k =
     (if i \<le> e
      then (if safe_integer i
            then bulk_loop clk product form (i + 1) e (acc @ [bulk_unit clk product form i k])
                   (k + 3)
            else None)
      else Some (acc, k))"
  by (rule bulk_loop.simps)

lemma bulk_loop_units:
  "- (2 ^ 53 - 1) \<le> i \<Longrightarrow> e \<le> 2 ^ 53 - 1 \<Longrightarrow>
   bulk_loop clk product form i e acc k =
     Some (acc @ bulk_units clk product form i e k, k + 3 * nat (e + 1 - i))"
proof (induction clk product form i e acc k rule: bulk_loop.induct)
  case (1 clk product form i e acc k)
  show ?case
  proof (cases "i \<le> e")
    case False
    then show ?thesis
      by (simp add: bulk_loop_step [of clk product form i e] bulk_units_def)
  next
    case True
    with "1.prems" have safe: "safe_integer i" by (simp add: safe_integer_def)
    have shift: "k + 3 + 3 * nat (j - (i + 1)) = k + 3 * nat (j - i)" if "j \<in> set [i + 1..e]" for j
      using that by (simp add: nat_diff_distrib) linarith
    have last: "k + 3 + 3 * nat (e + 1 - (i + 1)) = k + 3 * nat (e + 1 - i)"
      using True by (simp add: nat_diff_distrib)
    have "bulk_loop clk product form (i + 1) e (acc @ [bulk_unit clk product form i k]) (k + 3)
        = Some ((acc @ [bulk_unit clk product form i k]) @
                  bulk_units clk product form (i + 1) e (k + 3),
                k + 3 + 3 * nat (e + 1 - (i + 1)))"
      using "1.IH" [OF True safe] "1.prems" by simp
    moreover have "bulk_units clk product form (i + 1) e (k + 3)
        = map (\<lambda>j. bulk_unit clk product form j (k + 3 * nat (j - i))) [i + 1..e]"
      unfolding bulk_units_def
    proof (rule map_cong [OF refl])
      fix j
      assume "j \<in> set [i + 1..e]"
      then have "k + 3 + 3 * nat (j - (i + 1)) = k + 3 * nat (j - i)" by (rule shift)
      then show "bulk_unit clk product form j (k + 3 + 3 * nat (j - (i + 1)))
          = bulk_unit clk product form j (k + 3 * nat (j - i))"
        by (rule arg_cong)
    qed
    ultimately show ?thesis
      using True safe
      by (simp add: bulk_loop_step [of clk product form i e] upto_rec1 [of i e] bulk_units_def
            last)
  qed
qed



lemma bulk_units_length: "length (bulk_units clk product form a b k) = nat (b + 1 - a)"
  by (simp add: bulk_units_def)

lemma handleBulkGenerate_accepts:
  assumes "parseInt (startNumber form) = Num a" and "parseInt (endNumber form) = Num b"
    and "trim (prefix form) \<noteq> []" and "a \<le> b" and "b - a \<le> 1000"
  shows "handleBulkGenerate clk product form m =
     (if fst (addSerials clk (bulk_units clk product form a b (reads m))
                (m\<lparr>reads := reads m + 3 * nat (b + 1 - a)\<rparr>)) = Completed
      then Some (toast (serials_generated (nat (b + 1 - a)))
                   (form\<lparr>form_loading := True, prefix := [], startNumber := [], endNumber := [],
                         bulkExpiryDate := None, bulkAttributes := []\<rparr>)
                   \<lparr>form_loading := False\<rparr>,
                 snd (addSerials clk (bulk_units clk product form a b (reads m))
                        (m\<lparr>reads := reads m + 3 * nat (b + 1 - a)\<rparr>)))
      else Some (form\<lparr>form_loading := True\<rparr>,
                 snd (addSerials clk (bulk_units clk product form a b (reads m))
                        (m\<lparr>reads := reads m + 3 * nat (b + 1 - a)\<rparr>))))"
proof -
  from assms(1,2) have "safe_integer a" and "safe_integer b"
    by (simp_all add: parseInt_safe)
  then have "bulk_loop clk product form a b [] (reads m) =
      Some (bulk_units clk product form a b (reads m), reads m + 3 * nat (b + 1 - a))"
    using bulk_loop_units [of a b clk product form "[]" "reads m"]
    by (simp add: safe_integer_def)
  with assms show ?thesis
    by (simp add: handleBulkGenerate_def Let_def split_beta bulk_units_length)
qed

lemma handleBulkGenerate_rejects:
  assumes "parseInt (startNumber form) = Num a" and "parseInt (endNumber form) = Num b"
    and "b - a > 1000"
  shows "\<exists>t. destructive t \<and>
           handleBulkGenerate clk product form m = Some (toast t form, m)"
proof (cases "trim (prefix form) = []")
  case True
  then have "handleBulkGenerate clk product form m = Some (toast invalid_input form, m)"
    by (simp add: handleBulkGenerate_def)
  moreover have "destructive invalid_input" by (simp add: invalid_input_def)
  ultimately show ?thesis by blast
next
  case False
  with assms have "handleBulkGenerate clk product form m = Some (toast range_too_large form, m)"
    by (simp add: handleBulkGenerate_def)
  moreover have "destructive range_too_large" by (simp add: range_too_large_def)
  ultimately show ?thesis by blast
qed

lemma parseInt_examples:
  "parseInt ''1'' = Num 1" "parseInt ''3'' = Num 3" "parseInt ''1001'' = Num 1001"
  by code_simp+

lemma trim_example: "trim ''CPU001X7'' \<noteq> []"
  by code_simp


section \<open>The status invariant\<close>

text \<open>
  C1, as the code has it. The seeded state satisfies the status invariant (a serial is
  unassigned exactly when it has no ASN id, and an ASN id that is present is the id of an
  ASN of the snapshot), and \<^verbatim>\<open>addSerials\<close>, \<^verbatim>\<open>updateSerial\<close> and
  \<^verbatim>\<open>updateSerialStatus\<close> keep it when their arguments agree with it (\<open>call_ok\<close>): the
  units added, the replacing unit, the pair of status and ASN id. So after any such
  sequence of calls from the first read, in the per-domain store every record that is
  stored satisfies it and so does the snapshot that the next read resolves with; a record
  is stored when no observer throws (one that throws has every put undone, the seed
  included). In the global store the state in memory satisfies it. The stores check none
  of this themselves.
\<close>

theorem status_invariant_preserved:
  "(idb m = None \<and> list_all (call_ok getDefaultASNs) calls \<longrightarrow>
      (\<forall>s. idb (run clk calls (snd (getStore clk m))) = Some s \<longrightarrow> status_invariant s) \<and>
      status_invariant (fst (getStore clk (run clk calls (snd (getStore clk m))))) \<and>
      (\<not> list_ex cb_raises (subscribers m) \<longrightarrow>
         (\<exists>s. idb (run clk calls (snd (getStore clk m))) = Some s))) \<and>
   (g_idb g = None \<and> list_all (call_ok g_getDefaultASNs) calls \<longrightarrow>
      g_status_invariant (g_state (g_run clk calls (snd (g_init clk g)))))"
proof -
  have k: "kept getDefaultASNs (run clk calls (snd (getStore clk m)))"
    if h: "idb m = None \<and> list_all (call_ok getDefaultASNs) calls"
  proof -
    from h have "kept getDefaultASNs m" by (simp add: kept_def)
    then have "kept getDefaultASNs (snd (getStore clk m))" by (rule kept_getStore)
    with h show ?thesis by (simp add: kept_run)
  qed
  show ?thesis
  proof (intro conjI impI allI)
    fix s
    assume "idb m = None \<and> list_all (call_ok getDefaultASNs) calls"
      and "idb (run clk calls (snd (getStore clk m))) = Some s"
    with k have "sound getDefaultASNs s" by (simp add: kept_def)
    then show "status_invariant s" by (rule sound_invariant)
  next
    assume "idb m = None \<and> list_all (call_ok getDefaultASNs) calls"
    then have "sound getDefaultASNs (fst (getStore clk (run clk calls (snd (getStore clk m)))))"
      using k by (simp add: sound_read)
    then show "status_invariant (fst (getStore clk (run clk calls (snd (getStore clk m)))))"
      by (rule sound_invariant)
  next
    assume "idb m = None \<and> list_all (call_ok getDefaultASNs) calls"
      and "\<not> list_ex cb_raises (subscribers m)"
    then have "idb (snd (getStore clk m)) = Some (defaultStore (clk (Suc (reads m))))"
      by (simp add: getStore_first_kept)
    from products_run [OF this, of clk calls]
    show "\<exists>s. idb (run clk calls (snd (getStore clk m))) = Some s" by blast
  next
    assume h: "g_idb g = None \<and> list_all (call_ok g_getDefaultASNs) calls"
    then have "g_sound g_getDefaultASNs (g_state (snd (g_init clk g)))"
      by (simp add: g_state_init_first g_sound_seed)
    with h have "g_sound g_getDefaultASNs (g_state (g_run clk calls (snd (g_init clk g))))"
      by (simp add: g_sound_run)
    then show "g_status_invariant (g_state (g_run clk calls (snd (g_init clk g))))"
      by (rule g_sound_invariant)
  qed
qed

theorem status_invariant_preserved_witness:
  "idb serialStore = None \<and> list_all (call_ok getDefaultASNs) example_calls \<and>
   \<not> list_ex cb_raises (subscribers serialStore) \<and>
   (\<exists>s. idb (run example_clock example_calls (snd (getStore example_clock serialStore))) = Some s
        \<and> status_invariant s) \<and>
   g_idb (globalStore example_clock) = None \<and>
   list_all (call_ok g_getDefaultASNs) example_calls \<and>
   g_status_invariant (g_state (g_run example_clock example_calls
      (snd (g_init example_clock (globalStore example_clock)))))"
proof -
  have a: "idb serialStore = None" and q: "\<not> list_ex cb_raises (subscribers serialStore)"
    by (simp_all add: serialStore_def)
  have b: "list_all (call_ok getDefaultASNs) example_calls"
    by (simp add: example_calls_def pair_ok_def getDefaultASNs_def)
  have c: "g_idb (globalStore example_clock) = None" by (simp add: globalStore_def)
  have d: "list_all (call_ok g_getDefaultASNs) example_calls"
    by (simp add: example_calls_def pair_ok_def g_getDefaultASNs_def)
  from status_invariant_preserved [of serialStore example_calls example_clock
      "globalStore example_clock"] a b c d q
  show ?thesis by blast
qed

text \<open>
  Without that proviso the invariant breaks: \<^verbatim>\<open>updateSerialStatus('3', 'blocked')\<close> on
  the seeded store leaves serial \<open>3\<close> blocked with no ASN id.
\<close>

theorem status_invariant_counterexample:
  "map_option status_invariant
     (idb (snd (updateSerialStatus example_clock ''3'' Blocked None (seeded example_clock))))
   = Some False"
proof -
  have stored: "idb (seeded example_clock) = Some (defaultStore (example_clock 1))"
    by (simp add: seeded_eq)
  have found: "findIndex (\<lambda>u. serial_id u = ''3'') (serials (defaultStore (example_clock 1)))
      = Some 2"
    by (simp add: defaultStore_def getDefaultSerials_def)
  have unobserved: "\<not> list_ex cb_raises (subscribers (seeded example_clock))"
    by (simp add: seeded_eq)
  from updateSerialStatus_known(1) [OF stored found, of example_clock Blocked None] unobserved
  have "idb (snd (updateSerialStatus example_clock ''3'' Blocked None (seeded example_clock))) =
      Some ((defaultStore (example_clock 1))
        \<lparr>serials := (serials (defaultStore (example_clock 1)))
           [2 := (serials (defaultStore (example_clock 1)) ! 2)
                   \<lparr>status := Blocked, asn_id := None,
                    updated_date := example_clock (reads (seeded example_clock))\<rparr>],
         lastUpdated := example_clock (Suc (reads (seeded example_clock)))\<rparr>)"
    by simp
  then show ?thesis
    by (simp add: status_invariant_def defaultStore_def getDefaultSerials_def unit_ok_def
          pair_ok_def)
qed

section \<open>The first read\<close>

text \<open>
  C2, as the code has it. In the per-domain store the first read, the one that finds no
  record, resolves with the default store, and after any calls that follow a read resolves
  with a snapshot whose products are the default products, which are not empty. When no
  observer throws, the default store is put at once, and after any calls that follow a
  read finds a record and resolves with it. When an observer throws, the put of the
  default store is undone and the record is as absent after the first read as before it.
  In the global store the first load makes the default state the state in memory and puts
  nothing: the record is still absent after it.
\<close>

theorem first_read_seeds:
  "(idb m = None \<longrightarrow>
      fst (getStore clk m) = defaultStore (clk (reads m)) \<and>
      (\<forall>calls.
          products (fst (getStore clk (run clk calls (snd (getStore clk m)))))
            = getDefaultProducts \<and>
          products (fst (getStore clk (run clk calls (snd (getStore clk m))))) \<noteq> []) \<and>
      (\<not> list_ex cb_raises (subscribers m) \<longrightarrow>
          idb (snd (getStore clk m)) = Some (defaultStore (clk (Suc (reads m)))) \<and>
          (\<forall>calls. \<exists>s. idb (run clk calls (snd (getStore clk m))) = Some s \<and>
              fst (getStore clk (run clk calls (snd (getStore clk m)))) = s)) \<and>
      (list_ex cb_raises (subscribers m) \<longrightarrow> idb (snd (getStore clk m)) = None)) \<and>
   (g_idb g = None \<longrightarrow>
      g_state (snd (g_init clk g)) =
        (defaultState clk)\<lparr>g_serials := getDefaultSerials, g_asns := g_getDefaultASNs,
                            g_products := g_getDefaultProducts\<rparr> \<and>
      g_idb (snd (g_init clk g)) = None)"
proof -
  have read: "products (fst (getStore clk (run clk calls (snd (getStore clk m)))))
      = getDefaultProducts" if "idb m = None" for calls
  proof -
    from that have "stocked m" by (simp add: stocked_def)
    then have "stocked (snd (getStore clk m))" by (rule stocked_getStore)
    then have "stocked (run clk calls (snd (getStore clk m)))" by (rule stocked_run)
    then show ?thesis by (rule stocked_read)
  qed
  show ?thesis
  proof (intro conjI impI allI)
    assume "idb m = None"
    then show "fst (getStore clk m) = defaultStore (clk (reads m))"
      by (simp add: getStore_first)
  next
    fix calls
    assume "idb m = None"
    then show "products (fst (getStore clk (run clk calls (snd (getStore clk m)))))
        = getDefaultProducts"
      by (rule read)
  next
    fix calls
    assume "idb m = None"
    then show "products (fst (getStore clk (run clk calls (snd (getStore clk m))))) \<noteq> []"
      by (simp add: read getDefaultProducts_nonempty)
  next
    assume "idb m = None" and "\<not> list_ex cb_raises (subscribers m)"
    then show "idb (snd (getStore clk m)) = Some (defaultStore (clk (Suc (reads m))))"
      by (simp add: getStore_first_kept)
  next
    fix calls
    assume "idb m = None" and "\<not> list_ex cb_raises (subscribers m)"
    then have "idb (snd (getStore clk m)) = Some (defaultStore (clk (Suc (reads m))))"
      by (simp add: getStore_first_kept)
    from products_run [OF this, of clk calls]
    obtain s where "idb (run clk calls (snd (getStore clk m))) = Some s"
      by blast
    then show "\<exists>s. idb (run clk calls (snd (getStore clk m))) = Some s \<and>
            fst (getStore clk (run clk calls (snd (getStore clk m)))) = s"
      by (simp add: getStore_stored)
  next
    assume "idb m = None" and "list_ex cb_raises (subscribers m)"
    then show "idb (snd (getStore clk m)) = None"
      by (rule getStore_first_undone)
  next
    assume none: "g_idb g = None"
    then show "g_state (snd (g_init clk g)) =
          (defaultState clk)\<lparr>g_serials := getDefaultSerials, g_asns := g_getDefaultASNs,
                              g_products := g_getDefaultProducts\<rparr>"
      by (rule g_state_init_first)
  next
    assume none: "g_idb g = None"
    then show "g_idb (snd (g_init clk g)) = None"
      by (simp add: g_init_def loadState_def g_notifySubscribers_def split_beta)
  qed
qed

text \<open>
  On the store as the module creates it, the first read stores the default store; with an
  observer that throws subscribed before it, the first read leaves the record absent.
\<close>

theorem first_read_seeds_witness:
  "idb serialStore = None \<and> \<not> list_ex cb_raises (subscribers serialStore) \<and>
   fst (getStore example_clock serialStore) = defaultStore (example_clock 0) \<and>
   idb (snd (getStore example_clock serialStore)) = Some (defaultStore (example_clock 1)) \<and>
   (\<exists>s. idb (run example_clock example_calls (snd (getStore example_clock serialStore))) = Some s
      \<and> fst (getStore example_clock
               (run example_clock example_calls (snd (getStore example_clock serialStore)))) = s
      \<and> products s \<noteq> []) \<and>
   idb (subscribe faulty_observer serialStore) = None \<and>
   list_ex cb_raises (subscribers (subscribe faulty_observer serialStore)) \<and>
   fst (getStore example_clock (subscribe faulty_observer serialStore))
     = defaultStore (example_clock 0) \<and>
   idb (snd (getStore example_clock (subscribe faulty_observer serialStore))) = None"
proof -
  have a: "idb serialStore = None" and b: "reads serialStore = 0"
    and q: "\<not> list_ex cb_raises (subscribers serialStore)"
    by (simp_all add: serialStore_def)
  have a': "idb (subscribe faulty_observer serialStore) = None"
    and b': "reads (subscribe faulty_observer serialStore) = 0"
    and q': "list_ex cb_raises (subscribers (subscribe faulty_observer serialStore))"
    by (simp_all add: subscribe_def serialStore_def faulty_observer_def)
  from first_read_seeds [of serialStore example_clock "globalStore example_clock"] a b q
  have kept: "fst (getStore example_clock serialStore) = defaultStore (example_clock 0) \<and>
   idb (snd (getStore example_clock serialStore)) = Some (defaultStore (example_clock 1)) \<and>
   (\<exists>s. idb (run example_clock example_calls (snd (getStore example_clock serialStore))) = Some s
      \<and> fst (getStore example_clock
               (run example_clock example_calls (snd (getStore example_clock serialStore)))) = s
      \<and> products s \<noteq> [])"
    by auto
  from first_read_seeds [of "subscribe faulty_observer serialStore" example_clock
      "globalStore example_clock"] a' b' q'
  have undone: "fst (getStore example_clock (subscribe faulty_observer serialStore))
     = defaultStore (example_clock 0) \<and>
   idb (snd (getStore example_clock (subscribe faulty_observer serialStore))) = None"
    by simp
  from a q kept a' q' undone show ?thesis by simp
qed

text \<open>
  The global store after its first load: the state has the default products and the record
  is as absent as before, so that the next load finds none again; and after
  \<^verbatim>\<open>deleteProduct\<close> of both products the state has no product.
\<close>

theorem first_read_seeds_counterexample:
  "g_idb (globalStore example_clock) = None \<and>
   g_products (g_state (snd (g_init example_clock (globalStore example_clock))))
     = g_getDefaultProducts \<and>
   g_idb (snd (g_init example_clock (globalStore example_clock))) = None \<and>
   g_products (g_state (snd (deleteProduct example_clock ''2''
     (snd (deleteProduct example_clock ''1''
       (snd (g_init example_clock (globalStore example_clock)))))))) = []"
proof -
  have del: "g_products (g_state (snd (deleteProduct clk p g))) =
      filter (\<lambda>product. product_id product \<noteq> p) (g_products (g_state g))" for clk p g
    by (simp add: deleteProduct_def g_state_setState merge_updates_def no_updates_def)
  have seed: "g_products (g_state (snd (g_init example_clock (globalStore example_clock))))
     = g_getDefaultProducts"
    by (simp add: g_state_init_first globalStore_def)
  have "g_idb (snd (g_init example_clock (globalStore example_clock))) = None"
    using g_seeded_eq [of example_clock] by (simp add: g_seeded_def)
  moreover have "g_idb (globalStore example_clock) = None"
    by (simp add: globalStore_def)
  moreover have "filter (\<lambda>product. product_id product \<noteq> ''2'')
      (filter (\<lambda>product. product_id product \<noteq> ''1'') g_getDefaultProducts) = []"
    by (simp add: g_getDefaultProducts_def)
  ultimately show ?thesis by (simp add: del seed)
qed

section \<open>Notification rounds\<close>

text \<open>
  C3, as the code has it, for subscribers none of which throws (\<open>quiet\<close>). In the
  per-domain store a call on a stored snapshot notifies each subscriber once when it writes
  (\<^verbatim>\<open>addSerials\<close> always, \<^verbatim>\<open>updateSerial\<close> and \<^verbatim>\<open>updateSerialStatus\<close> when a
  serial has the id) and not at all otherwise; over any run a subscriber receives exactly
  one notification for every put, the put of the seed on the first read included; and a
  round comes after its put. In the global store, which replays the state on
  \<^verbatim>\<open>subscribe\<close>, a subscriber that subscribes and then sees a run of calls is notified
  once for subscribing and once for every mutation call of the run, whether or not the call
  changed anything; there the round comes after the update of the state and before the
  put. All of this holds for every subscriber of the set, whatever its position in it.
\<close>

theorem notification_rounds:
  "(idb m = Some s \<and> quiet (subscribers m) \<and> c \<in> set (subscribers m) \<longrightarrow>
      notifications c (trace (snd (perform clk call m))) =
        notifications c (trace m) + (if writes s call then 1 else 0)) \<and>
   (quiet (subscribers m) \<and> c \<in> set (subscribers m) \<longrightarrow>
      notifications c (trace (run clk calls m)) + puts (trace m) =
        notifications c (trace m) + puts (trace (run clk calls m))) \<and>
   (quiet (subscribers m) \<longrightarrow>
      trace (snd (setStore clk d m)) =
        trace m @ Put (d\<lparr>lastUpdated := clk (reads m)\<rparr>) # map Notified (subscribers m)) \<and>
   (quiet (g_subscribers g) \<and> \<not> cb_raises c \<longrightarrow>
      notifications c (g_trace (g_run clk calls (snd (g_subscribe c g)))) =
        notifications c (g_trace g) + 1 + length (filter is_mutation calls)) \<and>
   (quiet (g_subscribers g) \<longrightarrow>
      g_trace (snd (setState clk upd g)) =
        g_trace g @ map Notified (g_subscribers g) @
          (if g_db g then [Put (g_state (snd (setState clk upd g)))] else []))"
proof (intro conjI impI)
  assume "idb m = Some s \<and> quiet (subscribers m) \<and> c \<in> set (subscribers m)"
  then show "notifications c (trace (snd (perform clk call m))) =
        notifications c (trace m) + (if writes s call then 1 else 0)"
    using perform_stored_round(1) [of m s c clk call] by simp
next
  assume "quiet (subscribers m) \<and> c \<in> set (subscribers m)"
  then show "notifications c (trace (run clk calls m)) + puts (trace m) =
        notifications c (trace m) + puts (trace (run clk calls m))"
    using run_balance [of m c clk calls] by simp
next
  assume "quiet (subscribers m)"
  then show "trace (snd (setStore clk d m)) =
        trace m @ Put (d\<lparr>lastUpdated := clk (reads m)\<rparr>) # map Notified (subscribers m)"
    by (simp add: setStore_quiet)
next
  assume h: "quiet (g_subscribers g) \<and> \<not> cb_raises c"
  then have r: "notifications c (g_trace (snd (g_subscribe c g))) = Suc (notifications c (g_trace g))"
    "quiet (g_subscribers (snd (g_subscribe c g)))"
    "c \<in> set (g_subscribers (snd (g_subscribe c g)))"
    using g_subscribe_replay [of g c] by simp_all
  from g_run_rounds [OF r(2) r(3), of clk calls] r(1)
  show "notifications c (g_trace (g_run clk calls (snd (g_subscribe c g)))) =
        notifications c (g_trace g) + 1 + length (filter is_mutation calls)"
    by simp
next
  assume "quiet (g_subscribers g)"
  then show "g_trace (snd (setState clk upd g)) =
        g_trace g @ map Notified (g_subscribers g) @
          (if g_db g then [Put (g_state (snd (setState clk upd g)))] else [])"
    by (rule g_trace_setState_quiet)
qed

theorem notification_rounds_witness:
  "quiet (subscribers (subscribe observer (seeded example_clock))) \<and>
   observer \<in> set (subscribers (subscribe observer (seeded example_clock))) \<and>
   notifications observer (trace (subscribe observer (seeded example_clock))) = 0 \<and>
   notifications observer
     (trace (snd (perform example_clock (AddSerials [])
        (subscribe observer (seeded example_clock))))) = 1 \<and>
   notifications observer (g_trace (g_seeded example_clock)) = 0 \<and>
   notifications observer
     (g_trace (g_run example_clock example_calls
        (snd (g_subscribe observer (g_seeded example_clock))))) = 4"
proof -
  let ?m = "subscribe observer (seeded example_clock)"
  have gc: "\<not> cb_raises observer"
    by (simp add: observer_def)
  have q: "quiet (subscribers ?m)" and c: "observer \<in> set (subscribers ?m)"
    and s: "idb ?m = Some (defaultStore (example_clock 1))"
    and n: "notifications observer (trace ?m) = 0"
    using gc by (simp_all add: subscribed_eq quiet_def notifications_def)
  have gq: "quiet (g_subscribers (g_seeded example_clock))"
    and gn: "notifications observer (g_trace (g_seeded example_clock)) = 0"
    and len: "length (filter is_mutation example_calls) = 3"
    by (simp_all add: g_seeded_eq quiet_def notifications_def example_calls_def)
  from notification_rounds [of ?m "defaultStore (example_clock 1)" observer example_clock
      "AddSerials []" example_calls "defaultStore 0" "g_seeded example_clock"
      "\<lambda>clk k st. (no_updates, k)"]
  have "notifications observer (trace (snd (perform example_clock (AddSerials []) ?m))) =
          notifications observer (trace ?m) + 1"
    and "notifications observer (g_trace (g_run example_clock example_calls
          (snd (g_subscribe observer (g_seeded example_clock))))) =
          notifications observer (g_trace (g_seeded example_clock)) + 1 + 3"
    using q c s gq gc len by simp_all
  with q c n gn show ?thesis by simp
qed

text \<open>
  One completed mutation call and no notification: \<^verbatim>\<open>updateSerialStatus\<close> of the
  per-domain store with an id that no serial has.
\<close>

theorem notification_rounds_counterexample:
  "observer \<in> set (subscribers (subscribe observer (seeded example_clock))) \<and>
   notifications observer (trace (subscribe observer (seeded example_clock))) = 0 \<and>
   fst (updateSerialStatus example_clock ''9'' Blocked None
          (subscribe observer (seeded example_clock))) = Completed \<and>
   notifications observer
     (trace (snd (updateSerialStatus example_clock ''9'' Blocked None
        (subscribe observer (seeded example_clock))))) = 0"
proof -
  let ?m = "subscribe observer (seeded example_clock)"
  have s: "idb ?m = Some (defaultStore (example_clock 1))"
    and c: "observer \<in> set (subscribers ?m)"
    and n: "notifications observer (trace ?m) = 0"
    by (simp_all add: subscribed_eq notifications_def)
  have unknown: "\<forall>u\<in>set (serials (defaultStore (example_clock 1))). serial_id u \<noteq> ''9''"
    by (simp add: defaultStore_def getDefaultSerials_def)
  have "updateSerialStatus example_clock ''9'' Blocked None ?m = (Completed, ?m\<lparr>db := True\<rparr>)"
    using s unknown by (rule updateSerialStatus_unknown)
  with c n show ?thesis by simp
qed

section \<open>Writing and reading back\<close>



section \<open>The frame of \<^verbatim>\<open>updateSerialStatus\<close>\<close>

text \<open>
  C5, as the code has it. In the per-domain store, on a stored snapshot \<open>s\<close>: when no
  serial has the id, the call completes, the stored snapshot (with its \<^verbatim>\<open>lastUpdated\<close>)
  is \<open>s\<close> still and the trace has grown by nothing, neither a put nor a notification;
  when \<^verbatim>\<open>find\<close> meets the id at index \<open>i\<close> and no observer throws, the call
  completes and the stored snapshot becomes \<open>s\<close> with the status, the ASN id and the
  date of update of that one serial replaced, and with a new \<^verbatim>\<open>lastUpdated\<close>: every
  other field of the serial, every other serial, the ASNs and the products are those of
  \<open>s\<close>; when an observer throws, the call stays pending, the put is undone and the
  stored snapshot is \<open>s\<close> still. In the global store every serial with the id is
  replaced in this way and the others, the ASNs, the products and the UI state are kept;
  when no serial has the id the serials are unchanged, but \<^verbatim>\<open>lastUpdated\<close> is stamped
  afresh, the subscribers are called and the state is put again. Neither store looks the
  ASN id up: the statements hold for every \<open>a\<close>.
\<close>

theorem updateSerialStatus_frame:
  "(idb m = Some s \<and> (\<forall>u\<in>set (serials s). serial_id u \<noteq> sid) \<longrightarrow>
      fst (updateSerialStatus clk sid st a m) = Completed \<and>
      idb (snd (updateSerialStatus clk sid st a m)) = Some s \<and>
      trace (snd (updateSerialStatus clk sid st a m)) = trace m) \<and>
   (idb m = Some s \<and> findIndex (\<lambda>u. serial_id u = sid) (serials s) = Some i \<longrightarrow>
      idb (snd (updateSerialStatus clk sid st a m)) =
        (if list_ex cb_raises (subscribers m) then Some s
         else Some (s\<lparr>serials := (serials s)
                  [i := (serials s ! i)\<lparr>status := st, asn_id := a,
                                         updated_date := clk (reads m)\<rparr>],
                lastUpdated := clk (Suc (reads m))\<rparr>)) \<and>
      fst (updateSerialStatus clk sid st a m) =
        (if list_ex cb_raises (subscribers m) then Pending else Completed)) \<and>
   list_all2 (marked sid st a) (g_serials (g_state g))
     (g_serials (g_state (snd (g_updateSerialStatus clk sid st a g)))) \<and>
   g_asns (g_state (snd (g_updateSerialStatus clk sid st a g))) = g_asns (g_state g) \<and>
   g_products (g_state (snd (g_updateSerialStatus clk sid st a g))) = g_products (g_state g) \<and>
   ui (g_state (snd (g_updateSerialStatus clk sid st a g))) = ui (g_state g) \<and>
   ((\<forall>u\<in>set (g_serials (g_state g)). serial_id u \<noteq> sid) \<longrightarrow>
      g_serials (g_state (snd (g_updateSerialStatus clk sid st a g))) = g_serials (g_state g) \<and>
      system_lastUpdated (system (g_state (snd (g_updateSerialStatus clk sid st a g))))
        = clk (g_reads g) \<and>
      g_trace (snd (g_updateSerialStatus clk sid st a g)) =
        g_trace g @ map Notified (fst (deliver (g_subscribers g))) @
          (if \<not> snd (deliver (g_subscribers g)) \<and> g_db g
           then [Put (g_state (snd (g_updateSerialStatus clk sid st a g)))] else []))"
proof (intro conjI impI)
  assume "idb m = Some s \<and> (\<forall>u\<in>set (serials s). serial_id u \<noteq> sid)"
  then have *: "updateSerialStatus clk sid st a m = (Completed, m\<lparr>db := True\<rparr>)"
    and **: "idb m = Some s"
    by (simp_all add: updateSerialStatus_unknown)
  show "fst (updateSerialStatus clk sid st a m) = Completed" by (simp add: *)
  show "idb (snd (updateSerialStatus clk sid st a m)) = Some s" by (simp add: * **)
  show "trace (snd (updateSerialStatus clk sid st a m)) = trace m" by (simp add: *)
next
  assume h: "idb m = Some s \<and> findIndex (\<lambda>u. serial_id u = sid) (serials s) = Some i"
  then show "idb (snd (updateSerialStatus clk sid st a m)) =
        (if list_ex cb_raises (subscribers m) then Some s
         else Some (s\<lparr>serials := (serials s)
                  [i := (serials s ! i)\<lparr>status := st, asn_id := a,
                                         updated_date := clk (reads m)\<rparr>],
                lastUpdated := clk (Suc (reads m))\<rparr>))"
    using updateSerialStatus_known(1) [of m s sid i clk st a] by simp
  from h show "fst (updateSerialStatus clk sid st a m) =
        (if list_ex cb_raises (subscribers m) then Pending else Completed)"
    using updateSerialStatus_known(2) [of m s sid i clk st a] by simp
next
  show "list_all2 (marked sid st a) (g_serials (g_state g))
     (g_serials (g_state (snd (g_updateSerialStatus clk sid st a g))))"
    by (simp add: g_state_updateSerialStatus mark_status_related)
qed (simp_all add: g_rest_updateSerialStatus g_unknown_updateSerialStatus)

text \<open>
  On the seeded per-domain store: serial \<open>3\<close> is blocked for ASN \<open>1\<close>; the id \<open>9\<close>
  is unknown and changes nothing; and with an observer that throws the call for serial
  \<open>3\<close> stays pending and the stored snapshot is the seed still.
\<close>

theorem updateSerialStatus_frame_witness:
  "idb (snd (updateSerialStatus example_clock ''3'' Blocked (Some ''1'') (seeded example_clock)))
     = Some ((defaultStore (example_clock 1))
         \<lparr>serials := (serials (defaultStore (example_clock 1)))
            [2 := (serials (defaultStore (example_clock 1)) ! 2)
                    \<lparr>status := Blocked, asn_id := Some ''1'',
                     updated_date := example_clock 2\<rparr>],
          lastUpdated := example_clock 3\<rparr>) \<and>
   idb (snd (updateSerialStatus example_clock ''9'' Blocked (Some ''1'') (seeded example_clock)))
     = Some (defaultStore (example_clock 1)) \<and>
   trace (snd (updateSerialStatus example_clock ''9'' Blocked (Some ''1'') (seeded example_clock)))
     = trace (seeded example_clock) \<and>
   fst (updateSerialStatus example_clock ''3'' Blocked (Some ''1'')
          (subscribe faulty_observer (seeded example_clock))) = Pending \<and>
   idb (snd (updateSerialStatus example_clock ''3'' Blocked (Some ''1'')
          (subscribe faulty_observer (seeded example_clock))))
     = Some (defaultStore (example_clock 1))"
proof -
  have stored: "idb (seeded example_clock) = Some (defaultStore (example_clock 1))"
    and rd: "reads (seeded example_clock) = 2"
    and subs: "subscribers (seeded example_clock) = []"
    by (simp_all add: seeded_eq)
  have found: "findIndex (\<lambda>u. serial_id u = ''3'') (serials (defaultStore (example_clock 1)))
      = Some 2"
    by (simp add: defaultStore_def getDefaultSerials_def)
  have unknown: "\<forall>u\<in>set (serials (defaultStore (example_clock 1))). serial_id u \<noteq> ''9''"
    by (simp add: defaultStore_def getDefaultSerials_def)
  from updateSerialStatus_frame [of "seeded example_clock" "defaultStore (example_clock 1)"
      "''3''" example_clock Blocked "Some ''1''" 2 "g_seeded example_clock"] stored found rd subs
  have known: "idb (snd (updateSerialStatus example_clock ''3'' Blocked (Some ''1'')
        (seeded example_clock)))
     = Some ((defaultStore (example_clock 1))
         \<lparr>serials := (serials (defaultStore (example_clock 1)))
            [2 := (serials (defaultStore (example_clock 1)) ! 2)
                    \<lparr>status := Blocked, asn_id := Some ''1'',
                     updated_date := example_clock 2\<rparr>],
          lastUpdated := example_clock 3\<rparr>)"
    by (simp add: numeral_3_eq_3 numeral_2_eq_2)
  from updateSerialStatus_frame [of "seeded example_clock" "defaultStore (example_clock 1)"
      "''9''" example_clock Blocked "Some ''1''" 0 "g_seeded example_clock"] stored unknown
  have "idb (snd (updateSerialStatus example_clock ''9'' Blocked (Some ''1'')
          (seeded example_clock))) = Some (defaultStore (example_clock 1))"
    and "trace (snd (updateSerialStatus example_clock ''9'' Blocked (Some ''1'')
          (seeded example_clock))) = trace (seeded example_clock)"
    by blast+
  note unknown_id = this
  have stored': "idb (subscribe faulty_observer (seeded example_clock))
      = Some (defaultStore (example_clock 1))"
    and subs': "list_ex cb_raises (subscribers (subscribe faulty_observer (seeded example_clock)))"
    by (simp_all add: subscribe_def seeded_eq faulty_observer_def)
  from updateSerialStatus_frame [of "subscribe faulty_observer (seeded example_clock)"
      "defaultStore (example_clock 1)" "''3''" example_clock Blocked "Some ''1''" 2
      "g_seeded example_clock"] stored' found subs'
  have "fst (updateSerialStatus example_clock ''3'' Blocked (Some ''1'')
          (subscribe faulty_observer (seeded example_clock))) = Pending"
    and "idb (snd (updateSerialStatus example_clock ''3'' Blocked (Some ''1'')
          (subscribe faulty_observer (seeded example_clock))))
     = Some (defaultStore (example_clock 1))"
    by simp_all
  with known unknown_id show ?thesis by simp
qed

text \<open>
  The global store with an unknown id is no no-op: the observer is called a second time,
  and \<^verbatim>\<open>lastUpdated\<close> moves from the first reading of the clock to the next.
\<close>

theorem updateSerialStatus_frame_counterexample:
  "''9'' \<notin> set (map serial_id (g_serials (g_state (g_seeded example_clock)))) \<and>
   notifications observer (g_trace (snd (g_subscribe observer (g_seeded example_clock)))) = 1 \<and>
   notifications observer
     (g_trace (snd (g_updateSerialStatus example_clock ''9'' Blocked None
        (snd (g_subscribe observer (g_seeded example_clock)))))) = 2 \<and>
   system_lastUpdated (system (g_state (snd (g_subscribe observer (g_seeded example_clock)))))
     = example_clock 0 \<and>
   system_lastUpdated (system (g_state
     (snd (g_updateSerialStatus example_clock ''9'' Blocked None
        (snd (g_subscribe observer (g_seeded example_clock))))))) = example_clock 1"
proof -
  let ?g = "snd (g_subscribe observer (g_seeded example_clock))"
  have gs: "g_serials (g_state ?g) = getDefaultSerials"
    and gsub: "g_subscribers ?g = [observer]"
    and gtr: "g_trace ?g = [Notified observer]"
    and gdb: "g_db ?g"
    and grd: "g_reads ?g = 1"
    and t0: "system_lastUpdated (system (g_state ?g)) = example_clock 0"
    by (simp_all add: g_subscribe_def g_seeded_eq Let_def defaultState_def)
  have unknown: "\<forall>u\<in>set (g_serials (g_state ?g)). serial_id u \<noteq> ''9''"
    by (simp add: gs getDefaultSerials_def)
  have quiet: "\<not> cb_raises observer"
    by (simp add: observer_def)
  have "g_trace (snd (g_updateSerialStatus example_clock ''9'' Blocked None ?g)) =
      [Notified observer, Notified observer,
       Put (g_state (snd (g_updateSerialStatus example_clock ''9'' Blocked None ?g)))]"
    using g_unknown_updateSerialStatus(3) [OF unknown, of example_clock Blocked None]
    by (simp add: gsub gtr gdb quiet)
  then have two: "notifications observer
     (g_trace (snd (g_updateSerialStatus example_clock ''9'' Blocked None ?g))) = 2"
    by (simp add: notifications_def)
  have one: "notifications observer (g_trace ?g) = 1"
    by (simp add: gtr notifications_def)
  have t1: "system_lastUpdated (system (g_state
     (snd (g_updateSerialStatus example_clock ''9'' Blocked None ?g)))) = example_clock 1"
    using g_unknown_updateSerialStatus(2) [OF unknown, of example_clock Blocked None]
    by (simp add: grd)
  have absent: "''9'' \<notin> set (map serial_id (g_serials (g_state (g_seeded example_clock))))"
    by (simp add: g_seeded_eq getDefaultSerials_def)
  from absent one two t0 t1 show ?thesis by simp
qed

section \<open>Derived counts\<close>

text \<open>
  C6. The total of \<^verbatim>\<open>getSerialCounts\<close> is the sum of the lengths of
  \<^verbatim>\<open>getSerialsByStatus\<close> for the three statuses, in both stores. The derivations of
  the global store are functions of the manager alone; those of the per-domain store read
  through \<^verbatim>\<open>getStore\<close>, and on a stored snapshot they leave the stored record and the
  trace as they were: nothing is put and nobody is notified.
\<close>

theorem serialCounts_consistent:
  "total (fst (getSerialCounts clk m)) =
     length (fst (getSerialsByStatus clk Unassigned m))
     + length (fst (getSerialsByStatus clk Blocked m))
     + length (fst (getSerialsByStatus clk Assigned m)) \<and>
   (idb m = Some s \<longrightarrow>
      idb (snd (getSerialCounts clk m)) = Some s \<and>
      trace (snd (getSerialCounts clk m)) = trace m \<and>
      idb (snd (getSerialsByStatus clk st m)) = Some s \<and>
      trace (snd (getSerialsByStatus clk st m)) = trace m) \<and>
   total (g_getSerialCounts g) =
     length (g_getSerialsByStatus Unassigned g)
     + length (g_getSerialsByStatus Blocked g)
     + length (g_getSerialsByStatus Assigned g)"
proof (intro conjI impI)
  show "total (fst (getSerialCounts clk m)) =
     length (fst (getSerialsByStatus clk Unassigned m))
     + length (fst (getSerialsByStatus clk Blocked m))
     + length (fst (getSerialsByStatus clk Assigned m))"
    using length_by_status [of "serials (fst (getStore clk m))"]
    by (simp add: getSerialCounts_def getSerialsByStatus_def split_beta)
  show "total (g_getSerialCounts g) =
     length (g_getSerialsByStatus Unassigned g)
     + length (g_getSerialsByStatus Blocked g)
     + length (g_getSerialsByStatus Assigned g)"
    using length_by_status [of "g_serials (g_state g)"]
    by (simp add: g_getSerialCounts_def g_getSerialsByStatus_def)
qed (simp_all add: getSerialCounts_def getSerialsByStatus_def getStore_stored)

theorem serialCounts_consistent_witness:
  "idb (seeded example_clock) = Some (defaultStore (example_clock 1)) \<and>
   total (fst (getSerialCounts example_clock (seeded example_clock))) = 5 \<and>
   length (fst (getSerialsByStatus example_clock Unassigned (seeded example_clock)))
     + length (fst (getSerialsByStatus example_clock Blocked (seeded example_clock)))
     + length (fst (getSerialsByStatus example_clock Assigned (seeded example_clock))) = 5 \<and>
   idb (snd (getSerialCounts example_clock (seeded example_clock)))
     = Some (defaultStore (example_clock 1)) \<and>
   trace (snd (getSerialCounts example_clock (seeded example_clock)))
     = trace (seeded example_clock)"
proof -
  have stored: "idb (seeded example_clock) = Some (defaultStore (example_clock 1))"
    by (simp add: seeded_eq)
  have five: "total (fst (getSerialCounts example_clock (seeded example_clock))) = 5"
    by (simp add: getSerialCounts_def getStore_stored [OF stored] defaultStore_def
          getDefaultSerials_def)
  from serialCounts_consistent [of example_clock "seeded example_clock"
      "defaultStore (example_clock 1)" Unassigned "g_seeded example_clock"] stored five
  show ?thesis by simp
qed

section \<open>An observer that throws\<close>

text \<open>
  C7, as the code has it. \<^verbatim>\<open>notifySubscribers\<close> calls the observers in the order of
  their registration with nothing to catch what they throw, so a round reaches the
  observers before the first one that throws and that one (\<open>reached\<close>): the observers
  registered after it are not called. In the per-domain store the round runs in the success
  handler of the put: when no observer throws, the record stays and the promise of the
  mutation resolves; when one throws, the transaction is aborted, the record is what it
  was before the mutation, and the promise stays pending. In the global store the state in
  memory has been updated before the round, and the state is saved only when no observer
  throws; otherwise \<^verbatim>\<open>setState\<close> throws and the stored record is what it was.
\<close>

theorem faulty_observer_ends_round:
  "((\<forall>c\<in>set before. \<not> cb_raises c) \<and> cb_raises f \<longrightarrow>
      reached (before @ f # after) = before @ [f]) \<and>
   trace (snd (setStore clk d m)) =
     trace m @ Put (d\<lparr>lastUpdated := clk (reads m)\<rparr>) # map Notified (reached (subscribers m))
       @ (if list_ex cb_raises (subscribers m) then [Aborted] else []) \<and>
   idb (snd (setStore clk d m)) =
     (if list_ex cb_raises (subscribers m) then idb m
      else Some (d\<lparr>lastUpdated := clk (reads m)\<rparr>)) \<and>
   fst (setStore clk d m) = (if list_ex cb_raises (subscribers m) then Pending else Completed) \<and>
   g_trace (snd (setState clk upd g)) =
     g_trace g @ map Notified (reached (g_subscribers g)) @
       (if \<not> list_ex cb_raises (g_subscribers g) \<and> g_db g
        then [Put (g_state (snd (setState clk upd g)))] else []) \<and>
   g_idb (snd (setState clk upd g)) =
     (if \<not> list_ex cb_raises (g_subscribers g) \<and> g_db g
      then Some (g_state (snd (setState clk upd g))) else g_idb g) \<and>
   fst (setState clk upd g) =
     (if list_ex cb_raises (g_subscribers g) then Thrown else Completed)"
proof (intro conjI impI)
  assume "(\<forall>c\<in>set before. \<not> cb_raises c) \<and> cb_raises f"
  then show "reached (before @ f # after) = before @ [f]"
    by (simp add: reached_faulty)
next
  show "trace (snd (setStore clk d m)) =
     trace m @ Put (d\<lparr>lastUpdated := clk (reads m)\<rparr>) # map Notified (reached (subscribers m))
       @ (if list_ex cb_raises (subscribers m) then [Aborted] else [])"
    by (simp add: setStore_eq)
  show "idb (snd (setStore clk d m)) =
     (if list_ex cb_raises (subscribers m) then idb m
      else Some (d\<lparr>lastUpdated := clk (reads m)\<rparr>))"
    by (rule idb_setStore)
  show "fst (setStore clk d m) = (if list_ex cb_raises (subscribers m) then Pending else Completed)"
    by (rule fst_setStore)
  show "g_trace (snd (setState clk upd g)) =
     g_trace g @ map Notified (reached (g_subscribers g)) @
       (if \<not> list_ex cb_raises (g_subscribers g) \<and> g_db g
        then [Put (g_state (snd (setState clk upd g)))] else [])"
    by (simp add: g_trace_setState g_state_setState deliver_reached)
  show "g_idb (snd (setState clk upd g)) =
     (if \<not> list_ex cb_raises (g_subscribers g) \<and> g_db g
      then Some (g_state (snd (setState clk upd g))) else g_idb g)"
    by (simp add: setState_eq Let_def saveState_def deliver_reached)
  show "fst (setState clk upd g) =
     (if list_ex cb_raises (g_subscribers g) then Thrown else Completed)"
    by (simp add: setState_eq Let_def deliver_reached)
qed

theorem faulty_observer_ends_round_witness:
  "cb_raises faulty_observer \<and>
   reached ([observer] @ faulty_observer # [observer, faulty_observer])
     = [observer] @ [faulty_observer]"
proof -
  have a: "\<forall>c\<in>set [observer]. \<not> cb_raises c" by (simp add: observer_def)
  have b: "cb_raises faulty_observer" by (simp add: faulty_observer_def)
  from faulty_observer_ends_round [where before = "[observer]" and f = faulty_observer
      and after = "[observer, faulty_observer]" and m = "seeded example_clock"
      and clk = example_clock and d = "defaultStore 0" and g = "g_seeded example_clock"
      and upd = "\<lambda>clk k st. (no_updates, k)"] a b
  show ?thesis by blast
qed

text \<open>
  A faulty observer registered before a sound one: \<^verbatim>\<open>addSerials\<close> of the per-domain
  store stays pending, the sound observer is never called, and the mutation is undone, the
  stored serials being the five of the seed and not ten; \<^verbatim>\<open>addSerials\<close> of the global
  store throws and nothing is saved.
\<close>

theorem faulty_observer_counterexample:
  "subscribers (subscribe observer (subscribe faulty_observer (seeded example_clock)))
     = [faulty_observer, observer] \<and>
   fst (addSerials example_clock getDefaultSerials
          (subscribe observer (subscribe faulty_observer (seeded example_clock)))) = Pending \<and>
   notifications faulty_observer
     (trace (snd (addSerials example_clock getDefaultSerials
        (subscribe observer (subscribe faulty_observer (seeded example_clock)))))) = 1 \<and>
   notifications observer
     (trace (snd (addSerials example_clock getDefaultSerials
        (subscribe observer (subscribe faulty_observer (seeded example_clock)))))) = 0 \<and>
   idb (snd (addSerials example_clock getDefaultSerials
        (subscribe observer (subscribe faulty_observer (seeded example_clock)))))
     = Some (defaultStore (example_clock 1)) \<and>
   fst (g_addSerials example_clock []
          (snd (g_subscribe faulty_observer (g_seeded example_clock)))) = Thrown \<and>
   g_idb (snd (g_addSerials example_clock []
          (snd (g_subscribe faulty_observer (g_seeded example_clock))))) = None"
proof -
  let ?m = "subscribe observer (subscribe faulty_observer (seeded example_clock))"
  let ?g = "snd (g_subscribe faulty_observer (g_seeded example_clock))"
  let ?put = "Put ((defaultStore (example_clock 1))
      \<lparr>serials := serials (defaultStore (example_clock 1)) @ getDefaultSerials,
       lastUpdated := example_clock 2\<rparr>)"
  have ne: "observer \<noteq> faulty_observer"
    by (simp add: observer_def faulty_observer_def)
  have f: "cb_raises faulty_observer" by (simp add: faulty_observer_def)
  have m: "?m = \<lparr>db = True, subscribers = [faulty_observer, observer],
      idb = Some (defaultStore (example_clock 1)),
      trace = [Put (defaultStore (example_clock 1))], reads = 2\<rparr>"
    using ne by (simp add: subscribe_def seeded_eq)
  have r: "reached [faulty_observer, observer] = [faulty_observer]"
    using f by (simp add: reached_def)
  have add: "addSerials example_clock getDefaultSerials ?m =
      (Pending, ?m\<lparr>reads := 3,
         trace := [Put (defaultStore (example_clock 1)), ?put,
                   Notified faulty_observer, Aborted]\<rparr>)"
    unfolding m using f by (simp add: addSerials_stored setStore_eq r)
  have gs: "g_subscribers ?g = [faulty_observer]" and gi: "g_idb ?g = None"
    by (simp_all add: g_subscribe_def g_seeded_eq Let_def)
  have gadd: "fst (g_addSerials example_clock [] ?g) = Thrown"
    "g_idb (snd (g_addSerials example_clock [] ?g)) = None"
    using f by (simp_all add: g_addSerials_def setState_eq Let_def gs gi)
  have "subscribers ?m = [faulty_observer, observer]" by (simp add: m)
  moreover have "fst (addSerials example_clock getDefaultSerials ?m) = Pending"
    by (simp add: add)
  moreover have "notifications faulty_observer
      (trace (snd (addSerials example_clock getDefaultSerials ?m))) = 1"
    by (simp add: add notifications_def)
  moreover have "notifications observer
      (trace (snd (addSerials example_clock getDefaultSerials ?m))) = 0"
    using ne by (simp add: add notifications_def)
  moreover have "idb (snd (addSerials example_clock getDefaultSerials ?m))
      = Some (defaultStore (example_clock 1))"
    by (simp add: add) (simp add: m)
  ultimately show ?thesis using gadd by simp
qed

section \<open>Bulk generation\<close>



section \<open>The cap on the range\<close>

text \<open>
  C9. A range with \<open>end - start > 1000\<close> is rejected with a toast and the store is left
  as it is (\<open>handleBulkGenerate_rejects\<close>). The guard lets \<open>end - start = 1000\<close>
  through, though: from 1 to 1001 the form generates 1001 units, reports 1001 serial
  numbers, and the seeded store holds 1006 serials afterwards, against the maximum of 1000
  that the message of the guard announces.
\<close>

theorem bulk_cap_off_by_one:
  "parseInt (startNumber large_form) = Num 1 \<and>
   parseInt (endNumber large_form) = Num 1001 \<and>
   map_option (\<lambda>r. toasts (fst r))
     (handleBulkGenerate example_clock example_product large_form (seeded example_clock))
     = Some [serials_generated 1001] \<and>
   map_option (\<lambda>r. map_option (\<lambda>s. length (serials s)) (idb (snd r)))
     (handleBulkGenerate example_clock example_product large_form (seeded example_clock))
     = Some (Some (5 + 1001))"
proof -
  let ?m = "seeded example_clock"
  let ?units = "bulk_units example_clock example_product large_form 1 1001 (reads ?m)"
  let ?m' = "?m\<lparr>reads := reads ?m + 3003\<rparr>"
  have a: "parseInt (startNumber large_form) = Num 1"
    and b: "parseInt (endNumber large_form) = Num 1001"
    and c: "trim (prefix large_form) \<noteq> []"
    and t: "toasts large_form = []"
    by (simp_all add: large_form_def parseInt_examples trim_example)
  have s: "idb ?m' = Some (defaultStore (example_clock 1))"
    and n: "subscribers ?m' = []"
    by (simp_all add: seeded_eq)
  have completed: "fst (addSerials example_clock ?units ?m') = Completed"
    using s n by (rule addSerials_unobserved)
  have len: "length ?units = 1001"
    by (simp add: bulk_units_length)
  have five: "length (serials (defaultStore (example_clock 1))) = 5"
    by (simp add: defaultStore_def getDefaultSerials_def)
  have stored: "map_option (\<lambda>s. length (serials s)) (idb (snd (addSerials example_clock ?units ?m')))
      = Some (5 + 1001)"
    using len five n by (simp add: addSerials_stored [OF s] idb_setStore)
  have "handleBulkGenerate example_clock example_product large_form ?m =
      Some (toast (serials_generated 1001)
              (large_form\<lparr>form_loading := True, prefix := [], startNumber := [],
                 endNumber := [], bulkExpiryDate := None, bulkAttributes := []\<rparr>)
              \<lparr>form_loading := False\<rparr>,
            snd (addSerials example_clock ?units ?m'))"
    using handleBulkGenerate_accepts [OF a b c, of example_clock example_product ?m] completed
    by simp
  with a b stored t show ?thesis by (simp add: toast_def)
qed

section \<open>A status-only update drops the ASN id\<close>



end
